theory Spec2Isabelle
  imports Main "HOL-Library.AList"
begin

chapter \<open>arc-spa-csp: environment resolution, HTML detection and CSP injection\<close>

section \<open>JavaScript strings and regular expressions\<close>

text \<open>
  A JavaScript string is modelled as a \<^typ>\<open>string\<close> whose characters are its code units;
  the model covers code units below 256. Case conversion and the \<open>i\<close> flag act on the
  ASCII letters only (the code applies them to \<open>\w\<close> matches and to ASCII literals).
\<close>

type_synonym EnvironmentVariables = "(string \<times> string) list"

text \<open>
  \<open>EnvironmentVariables\<close> (\<open>Record<string, string | undefined>\<close>) is the list of an
  object's own properties in enumeration order. A key whose value is \<open>undefined\<close> is not
  represented. (JavaScript enumerates the keys that are array indices first; the keys
  whose order the code observes carry a prefix and are none.)

  The objects are plain objects (\<open>{}\<close> and what is assigned to it), so a read \<open>envVars[k]\<close>
  of a key that is not an own property finds the members that every plain object inherits
  from \<open>Object.prototype\<close>. \<open>OBJECT_PROTOTYPE\<close> lists these members, each with the text that
  the conversion to a string gives for it in Node: the code uses what it reads as a
  replacement text. \<open>getProperty\<close> is the read \<open>envVars[k]\<close>; for a key that is not
  inherited, such as \<open>NODE_ENV\<close>, it is \<^term>\<open>map_of envVars k\<close>.
\<close>

definition nativeFunction :: "string \<Rightarrow> string" where
  \<comment> \<open>\<open>String(f)\<close> for a built-in function \<open>f\<close> of the given name\<close>
  "nativeFunction name = ''function '' @ name @ ''() { [native code] }''"

definition OBJECT_PROTOTYPE :: "(string \<times> string) list" where
  "OBJECT_PROTOTYPE =
     [(''constructor'', nativeFunction ''Object''),
      (''__defineGetter__'', nativeFunction ''__defineGetter__''),
      (''__defineSetter__'', nativeFunction ''__defineSetter__''),
      (''hasOwnProperty'', nativeFunction ''hasOwnProperty''),
      (''__lookupGetter__'', nativeFunction ''__lookupGetter__''),
      (''__lookupSetter__'', nativeFunction ''__lookupSetter__''),
      (''isPrototypeOf'', nativeFunction ''isPrototypeOf''),
      (''propertyIsEnumerable'', nativeFunction ''propertyIsEnumerable''),
      (''toString'', nativeFunction ''toString''),
      (''valueOf'', nativeFunction ''valueOf''),
      (''__proto__'', ''[object Object]''),
      (''toLocaleString'', nativeFunction ''toLocaleString'')]"

definition getProperty :: "EnvironmentVariables \<Rightarrow> string \<Rightarrow> string option" where
  \<comment> \<open>\<open>envVars[key]\<close>: the own property, else the inherited member; \<open>None\<close> is \<open>undefined\<close>\<close>
  "getProperty envVars key =
     (case map_of envVars key of
        Some v \<Rightarrow> Some v
      | None \<Rightarrow> map_of OBJECT_PROTOTYPE key)"

definition isWordChar :: "char \<Rightarrow> bool" where
  \<comment> \<open>\<open>\w\<close>, that is \<open>[A-Za-z0-9_]\<close>\<close>
  "isWordChar c =
     (let n = (of_char c :: int)
      in (97 \<le> n \<and> n \<le> 122) \<or> (65 \<le> n \<and> n \<le> 90) \<or> (48 \<le> n \<and> n \<le> 57) \<or> n = 95)"

definition isDigitChar :: "char \<Rightarrow> bool" where
  "isDigitChar c = (let n = (of_char c :: int) in 48 \<le> n \<and> n \<le> 57)"

definition isUpperChar :: "char \<Rightarrow> bool" where
  \<comment> \<open>\<open>[A-Z]\<close>\<close>
  "isUpperChar c = (let n = (of_char c :: int) in 65 \<le> n \<and> n \<le> 90)"

definition isLowerChar :: "char \<Rightarrow> bool" where
  \<comment> \<open>\<open>[a-z]\<close>\<close>
  "isLowerChar c = (let n = (of_char c :: int) in 97 \<le> n \<and> n \<le> 122)"

definition isSpaceChar :: "char \<Rightarrow> bool" where
  \<comment> \<open>\<open>\s\<close>, also what \<open>trim\<close> removes: TAB, LF, VT, FF, CR, space, NBSP\<close>
  "isSpaceChar c = (let n = (of_char c :: int) in (9 \<le> n \<and> n \<le> 13) \<or> n = 32 \<or> n = 160)"

definition isLineTerminator :: "char \<Rightarrow> bool" where
  \<comment> \<open>the characters that \<open>.\<close> does not match (without the \<open>s\<close> flag)\<close>
  "isLineTerminator c = (let n = (of_char c :: int) in n = 10 \<or> n = 13)"

definition isQuoteChar :: "char \<Rightarrow> bool" where
  \<comment> \<open>\<open>["']\<close>\<close>
  "isQuoteChar c = (let n = (of_char c :: int) in n = 34 \<or> n = 39)"

definition toUpperChar :: "char \<Rightarrow> char" where
  "toUpperChar c = (if isLowerChar c then char_of (of_char c - (32::int)) else c)"

definition toUpperCase :: "string \<Rightarrow> string" where
  "toUpperCase s = map toUpperChar s"

definition trim :: "string \<Rightarrow> string" where
  "trim s = rev (dropWhile isSpaceChar (rev (dropWhile isSpaceChar s)))"

definition startsWith :: "string \<Rightarrow> string \<Rightarrow> bool" where
  "startsWith s p = (take (length p) s = p)"

definition startsWithCI :: "string \<Rightarrow> string \<Rightarrow> bool" where
  \<comment> \<open>a literal of a regular expression with the \<open>i\<close> flag, at the head of \<open>s\<close>\<close>
  "startsWithCI s p = (toUpperCase (take (length p) s) = toUpperCase p)"

fun splitOn :: "char \<Rightarrow> string \<Rightarrow> string list" where
  \<comment> \<open>\<open>s.split(sep)\<close> for a separator of one character\<close>
  "splitOn sep [] = [[]]"
| "splitOn sep (c # cs) =
     (if c = sep then [] # splitOn sep cs
      else (case splitOn sep cs of [] \<Rightarrow> [[c]] | x # xs \<Rightarrow> (c # x) # xs))"

definition objAssign :: "('k \<times> 'v) list \<Rightarrow> ('k \<times> 'v) list \<Rightarrow> ('k \<times> 'v) list" where
  \<comment> \<open>\<open>Object.assign(target, source)\<close>: a key of \<open>target\<close> keeps its place and takes the
      new value, a new key is appended\<close>
  "objAssign target source = fold (\<lambda>(k, v) acc. AList.update k v acc) source target"

text \<open>
  The result of one successful match: the matched text, the capture groups and the text
  after the match. A matcher takes the text at the current position and answers for a
  match that starts exactly there.
\<close>

record 'g rmatch =
  whole :: string
  groups :: 'g
  rest :: string

fun replaceGlobal ::
  "(string \<Rightarrow> 'g rmatch option) \<Rightarrow> ('g rmatch \<Rightarrow> string) \<Rightarrow> string \<Rightarrow> string" where
  \<comment> \<open>\<open>s.replace(re, f)\<close> for a regular expression with the \<open>g\<close> flag: matches are searched
      from left to right, the search resumes after each match (one character further
      after an empty match)\<close>
  "replaceGlobal m f s =
     (case m s of
        Some r \<Rightarrow>
          (if length (rest r) < length s then f r @ replaceGlobal m f (rest r)
           else (case s of [] \<Rightarrow> f r | c # cs \<Rightarrow> f r @ c # replaceGlobal m f cs))
      | None \<Rightarrow> (case s of [] \<Rightarrow> [] | c # cs \<Rightarrow> c # replaceGlobal m f cs))"

declare replaceGlobal.simps [simp del]

fun matchAll :: "(string \<Rightarrow> 'g rmatch option) \<Rightarrow> string \<Rightarrow> 'g rmatch list" where
  \<comment> \<open>the successive results of \<open>re.exec(s)\<close> for a regular expression with the \<open>g\<close> flag,
      until it answers \<open>null\<close>\<close>
  "matchAll m s =
     (case m s of
        Some r \<Rightarrow>
          (if length (rest r) < length s then r # matchAll m (rest r)
           else (case s of [] \<Rightarrow> [r] | c # cs \<Rightarrow> r # matchAll m cs))
      | None \<Rightarrow> (case s of [] \<Rightarrow> [] | c # cs \<Rightarrow> matchAll m cs))"

declare matchAll.simps [simp del]

fun execFirst :: "(string \<Rightarrow> 'g rmatch option) \<Rightarrow> string \<Rightarrow> (string \<times> 'g rmatch) option" where
  \<comment> \<open>the leftmost match, with the text preceding it: \<open>re.exec(s)\<close> from index 0\<close>
  "execFirst m [] = map_option (Pair []) (m [])"
| "execFirst m (c # cs) =
     (case m (c # cs) of
        Some r \<Rightarrow> Some ([], r)
      | None \<Rightarrow> map_option (\<lambda>(preceding, r). (c # preceding, r)) (execFirst m cs))"

definition testRegex :: "(string \<Rightarrow> 'g rmatch option) \<Rightarrow> string \<Rightarrow> bool" where
  \<comment> \<open>\<open>re.test(s)\<close> from index 0\<close>
  "testRegex m s = (execFirst m s \<noteq> None)"

definition TEMPLATE_VARIABLE :: "string \<Rightarrow> string rmatch option" where
  \<comment> \<open>\<open>REGEX_PATTERNS.TEMPLATE_VARIABLE = /\{\{(\w+)\}\}/g\<close>; the group is the name.
      \<open>\w+\<close> is greedy and a shorter name is followed by a word character, not by
      \<open>}}\<close>, so only the longest run of word characters can match.\<close>
  "TEMPLATE_VARIABLE s =
     (if take 2 s = ''{{'' then
        (let name = takeWhile isWordChar (drop 2 s);
             after = dropWhile isWordChar (drop 2 s)
         in if name \<noteq> [] \<and> take 2 after = ''}}''
            then Some \<lparr>whole = ''{{'' @ name @ ''}}'', groups = name, rest = drop 2 after\<rparr>
            else None)
      else None)"

definition placeholder :: "string \<Rightarrow> string" where
  \<comment> \<open>the text of the placeholder of a name\<close>
  "placeholder name = ''{{'' @ name @ ''}}''"


section \<open>Template resolvers\<close>

definition resolveTemplateVariables :: "string \<Rightarrow> EnvironmentVariables \<Rightarrow> string" where
  \<comment> \<open>\<open>src/utils/config-loader.ts\<close>: \<open>envVars[varName] ?? match\<close>\<close>
  "resolveTemplateVariables template envVars =
     replaceGlobal TEMPLATE_VARIABLE
       (\<lambda>r. case getProperty envVars (groups r) of Some replacement \<Rightarrow> replacement | None \<Rightarrow> whole r)
       template"

definition environment_resolveTemplateVariables :: "string \<Rightarrow> EnvironmentVariables \<Rightarrow> string" where
  \<comment> \<open>\<open>src/utils/environment.ts\<close>: the text is returned as it is when the pattern does not
      occur; otherwise \<open>envVars[varName] ?? envVars['NG_' + varName]\<close>, and the match
      itself when both are undefined. The expression is the shared one with the \<open>g\<close> flag;
      its \<open>lastIndex\<close> is 0 at every entry (a failed \<open>test\<close> and every \<open>replace\<close> leave it
      at 0), so \<open>test\<close> searches from the start of the text\<close>
  "environment_resolveTemplateVariables template envVars =
     (if \<not> testRegex TEMPLATE_VARIABLE template then template
      else replaceGlobal TEMPLATE_VARIABLE
        (\<lambda>r. if groups r = [] then whole r
             else (case getProperty envVars (groups r) of
                     Some v \<Rightarrow> v
                   | None \<Rightarrow> (case getProperty envVars (''NG_'' @ groups r) of
                                Some v \<Rightarrow> v
                              | None \<Rightarrow> whole r)))
        template)"

section \<open>The process, the file system and the Node library\<close>

datatype fs_node = File string | Directory "string list" | Unreadable

text \<open>
  The state of the process that the code reads and writes: the working directory, the
  process environment (\<open>process.env\<close>, an object of strings), the file system as seen
  through the path strings the code uses, the files that cannot be written, and the
  string that \<open>crypto.randomBytes(n).toString('base64')\<close> returns.
\<close>

record world =
  cwd :: string
  penv :: EnvironmentVariables
  files :: "string \<Rightarrow> fs_node option"
  readonly :: "string \<Rightarrow> bool"
  randomBase64 :: "int \<Rightarrow> string"

datatype error =
  FsError string
  | HtmlNotFound string
  | RangeError
  | TypeError
  | InjectFailed error

text \<open>
  A thrown exception is an \<^typ>\<open>error\<close>: \<open>FsError p\<close> is the exception of a file system
  call on the path \<open>p\<close>, \<open>HtmlNotFound\<close> carries the message of \<open>resolveProjectPaths\<close>,
  \<open>RangeError\<close> is the one of \<open>crypto.randomBytes\<close>, \<open>TypeError\<close> the one of a read or a
  library call on a value of the wrong type, and \<open>InjectFailed\<close> is the error that
  \<open>injectCSP\<close> throws in place of the one it caught.
\<close>

datatype json_text = Text string | NonText

record AngularProject =
  projectType :: string
  root :: json_text
  sourceRoot :: json_text

datatype AngularWorkspace = NoProjects | Projects "(string \<times> AngularProject option) list"

text \<open>
  The value that \<open>JSON.parse\<close> gives for \<open>angular.json\<close> and that the environment module
  casts to \<open>AngularWorkspace\<close>, as the code reads it.
  \<^item> \<open>NoProjects\<close> is a truthy value whose \<open>projects\<close> is \<open>undefined\<close> or \<open>null\<close>:
    \<open>Object.entries(workspace.projects)\<close> throws a \<open>TypeError\<close>.
  \<^item> \<open>Projects\<close> holds the entries of \<open>projects\<close> in enumeration order. An entry \<open>None\<close> is a
    project that is \<open>null\<close>: the read of its \<open>projectType\<close> throws a \<open>TypeError\<close>.
  \<^item> \<open>projectType\<close> is only compared with \<open>'application'\<close>; a value that is no string reads
    as the empty string.
  \<^item> \<open>root\<close> and \<open>sourceRoot\<close> are read as \<open>config.root || ''\<close> and
    \<open>config.sourceRoot || 'src'\<close> and passed to \<open>path.join\<close>: \<open>Text s\<close> is the string \<open>s\<close>,
    a missing or falsy value is \<open>Text []\<close>, and \<open>NonText\<close> is a truthy value that is no
    string, on which \<open>path.join\<close> throws a \<open>TypeError\<close>.
\<close>

record CSPConfig =
  directives :: "(string \<times> string list) list"
  useNonce :: "bool option"
  nonceLength :: "int option"
  reportOnly :: "bool option"

record PartialCSPConfig =
  p_directives :: "(string \<times> string list) list option"
  p_useNonce :: "bool option"
  p_nonceLength :: "int option"
  p_reportOnly :: "bool option"

text \<open>
  \<open>Partial<CSPConfig>\<close>: \<open>None\<close> is a key that the object does not have.
  What \<open>JSON.parse\<close> gives for a configuration file: a falsy value (\<open>null\<close>, \<open>false\<close>,
  \<open>0\<close>, \<open>""\<close>), or a value whose own properties, read at the type \<open>Partial<CSPConfig>\<close>,
  are the given ones.
\<close>

datatype parsed_config = Falsy | Parsed PartialCSPConfig

text \<open>
  Node's \<open>path\<close> module and \<open>JSON.parse\<close> are not code of this repository: they are
  parameters of the model. \<open>JSON.parse\<close> is taken at each type the code casts its
  result to; \<open>None\<close> is a thrown \<open>SyntaxError\<close> (for \<open>json_package\<close>, any exception of
  the \<open>try\<close> block that reads the dependencies).
  \<^item> \<open>json_workspace\<close>: \<open>angular.json\<close> for the environment module: \<open>Some None\<close> when the
    parsed value is falsy, else the value as \<open>AngularWorkspace\<close>;
  \<^item> \<open>json_package\<close>: the keys of \<open>{...dependencies, ...devDependencies}\<close> of \<open>package.json\<close>;
  \<^item> \<open>json_build\<close>: \<open>angular.json\<close> for the HTML locator: \<open>Some None\<close> when the parsed value
    is \<open>null\<close> or has no truthy \<open>projects\<close>, else for each project its
    \<open>architect?.build?.options?.outputPath\<close>;
  \<^item> \<open>json_config\<close>: the CSP configuration file.
\<close>

record node_lib =
  path_join :: "string \<Rightarrow> string \<Rightarrow> string"
  path_resolve :: "string \<Rightarrow> string \<Rightarrow> string"
  path_relative :: "string \<Rightarrow> string \<Rightarrow> string"
  path_dirname :: "string \<Rightarrow> string"
  path_normalize :: "string \<Rightarrow> string"
  path_isAbsolute :: "string \<Rightarrow> bool"
  json_workspace :: "string \<Rightarrow> AngularWorkspace option option"
  json_package :: "string \<Rightarrow> string list option"
  json_build :: "string \<Rightarrow> string option list option option"
  json_config :: "string \<Rightarrow> parsed_config option"

definition existsSync :: "world \<Rightarrow> string \<Rightarrow> bool" where
  "existsSync w p = (files w p \<noteq> None)"

definition readFileSync :: "world \<Rightarrow> string \<Rightarrow> string option" where
  \<comment> \<open>\<open>None\<close>: the call throws\<close>
  "readFileSync w p = (case files w p of Some (File content) \<Rightarrow> Some content | _ \<Rightarrow> None)"

definition readdirSync :: "world \<Rightarrow> string \<Rightarrow> string list option" where
  \<comment> \<open>\<open>None\<close>: the call throws\<close>
  "readdirSync w p = (case files w p of Some (Directory items) \<Rightarrow> Some items | _ \<Rightarrow> None)"

definition statIsDirectory :: "world \<Rightarrow> string \<Rightarrow> bool option" where
  \<comment> \<open>\<open>fs.statSync(p).isDirectory()\<close>; \<open>None\<close>: \<open>statSync\<close> throws\<close>
  "statIsDirectory w p =
     (case files w p of None \<Rightarrow> None | Some (Directory items) \<Rightarrow> Some True | Some _ \<Rightarrow> Some False)"

definition writeFileSync :: "world \<Rightarrow> string \<Rightarrow> string \<Rightarrow> world option" where
  \<comment> \<open>\<open>None\<close>: the call throws and the file system is as before\<close>
  "writeFileSync w p content =
     (case files w p of
        Some (Directory items) \<Rightarrow> None
      | _ \<Rightarrow> if readonly w p then None else Some (w\<lparr>files := (files w)(p \<mapsto> File content)\<rparr>))"

definition join3 :: "node_lib \<Rightarrow> string \<Rightarrow> string \<Rightarrow> string \<Rightarrow> string" where
  "join3 L a b c = path_join L (path_join L a b) c"

definition join4 :: "node_lib \<Rightarrow> string \<Rightarrow> string \<Rightarrow> string \<Rightarrow> string \<Rightarrow> string" where
  "join4 L a b c d = path_join L (path_join L (path_join L a b) c) d"

section \<open>The environment module (\<open>src/utils/environment.ts\<close>)\<close>

text \<open>
  The debug logger of this module prints only; its calls are left out.
\<close>

definition REACT :: string where "REACT = ''REACT_APP_''"
definition VITE :: string where "VITE = ''VITE_''"
definition ANGULAR :: string where "ANGULAR = ''NG_''"

definition getNodeEnv :: "world \<Rightarrow> string option" where
  "getNodeEnv w = map_of (penv w) ''NODE_ENV''"

definition isProduction :: "world \<Rightarrow> bool" where
  "isProduction w = (getNodeEnv w = Some ''production'')"

subsection \<open>Small matchers\<close>

definition lit :: "string \<Rightarrow> string \<Rightarrow> string option" where
  \<comment> \<open>a literal at the head of the text; the answer is the text after it\<close>
  "lit p s = (if startsWith s p then Some (drop (length p) s) else None)"

definition litCI :: "string \<Rightarrow> string \<Rightarrow> string option" where
  "litCI p s = (if startsWithCI s p then Some (drop (length p) s) else None)"

definition spaces0 :: "string \<Rightarrow> string" where
  \<comment> \<open>\<open>\s*\<close>, greedy\<close>
  "spaces0 s = dropWhile isSpaceChar s"

definition spaces1 :: "string \<Rightarrow> string option" where
  \<comment> \<open>\<open>\s+\<close>, greedy\<close>
  "spaces1 s = (case s of [] \<Rightarrow> None | c # cs \<Rightarrow> if isSpaceChar c then Some (spaces0 cs) else None)"

definition matched :: "string \<Rightarrow> string \<Rightarrow> string" where
  \<comment> \<open>the text consumed between a text and one of its suffixes\<close>
  "matched s after = take (length s - length after) s"

subsection \<open>Validation and key translation\<close>

definition quoteArtifact :: "string \<Rightarrow> bool" where
  \<comment> \<open>\<open>/^['"]?\s*['"]?$/\<close>: an optional quote, white space, an optional quote\<close>
  "quoteArtifact v =
     (let a = (case v of [] \<Rightarrow> [] | c # cs \<Rightarrow> if isQuoteChar c then cs else v);
          b = spaces0 a;
          d = (case b of [] \<Rightarrow> [] | c # cs \<Rightarrow> if isQuoteChar c then cs else b)
      in d = [])"

definition isValidEnvironmentValue :: "string \<Rightarrow> bool" where
  "isValidEnvironmentValue v =
     (v \<noteq> [] \<and> trim v \<noteq> [] \<and> v \<noteq> ''undefined'' \<and> v \<noteq> ''null'' \<and> \<not> quoteArtifact v)"

definition camelCaseToUpperCase :: "string \<Rightarrow> string" where
  \<comment> \<open>\<open>str.replace(/([A-Z])/g, '_$1').toUpperCase().replace(/^_/, '')\<close>\<close>
  "camelCaseToUpperCase str =
     (let marked = concat (map (\<lambda>c. if isUpperChar c then [CHR ''_'', c] else [c]) str);
          upper = toUpperCase marked
      in case upper of [] \<Rightarrow> [] | c # cs \<Rightarrow> if c = CHR ''_'' then cs else upper)"

definition filterValidEnvironmentVariables :: "EnvironmentVariables \<Rightarrow> EnvironmentVariables" where
  "filterValidEnvironmentVariables envVars =
     fold (\<lambda>(key, v) filtered. if isValidEnvironmentValue v then AList.update key v filtered else filtered)
       envVars []"

subsection \<open>React and VITE: \<open>.env\<close> files\<close>

definition ENV_FILE_LINE :: "string \<Rightarrow> (string \<times> string) rmatch option" where
  \<comment> \<open>\<open>/^([A-Za-z_][A-Za-z0-9_]*)\s*=\s*(.*)$/\<close> on a whole line: the name is the longest
      run of word characters, the value starts after the white space that follows \<open>=\<close>
      and must reach the end of the text without a line terminator\<close>
  "ENV_FILE_LINE s =
     (case s of
        [] \<Rightarrow> None
      | c # cs \<Rightarrow>
          if isWordChar c \<and> \<not> isDigitChar c then
            (let key = c # takeWhile isWordChar cs
             in case lit ''='' (spaces0 (dropWhile isWordChar cs)) of
                  None \<Rightarrow> None
                | Some r \<Rightarrow>
                    (let v = spaces0 r
                     in if list_ex isLineTerminator v then None
                        else Some \<lparr>whole = s, groups = (key, v), rest = []\<rparr>))
          else None)"

definition stripQuotes :: "string \<Rightarrow> string" where
  \<comment> \<open>\<open>value.replace(/^["'](.*)["']$/, '$1')\<close>\<close>
  "stripQuotes v =
     (if 2 \<le> length v \<and> isQuoteChar (hd v) \<and> isQuoteChar (last v)
         \<and> \<not> list_ex isLineTerminator (butlast (tl v))
      then butlast (tl v) else v)"

definition parseEnvLine :: "string \<Rightarrow> string \<Rightarrow> EnvironmentVariables \<Rightarrow> EnvironmentVariables" where
  \<comment> \<open>the body of the loop of \<open>parseEnvFile\<close>\<close>
  "parseEnvLine prefix line envVars =
     (let trimmedLine = trim line
      in if trimmedLine = [] \<or> startsWith trimmedLine ''#'' then envVars
         else (case ENV_FILE_LINE trimmedLine of
                 None \<Rightarrow> envVars
               | Some r \<Rightarrow>
                   if startsWith (fst (groups r)) prefix
                   then AList.update (fst (groups r)) (stripQuotes (snd (groups r))) envVars
                   else envVars))"

definition parseEnvFile :: "world \<Rightarrow> string \<Rightarrow> string \<Rightarrow> EnvironmentVariables" where
  \<comment> \<open>a file that cannot be read gives the empty object (the exception is caught)\<close>
  "parseEnvFile w envPath prefix =
     (case readFileSync w envPath of
        None \<Rightarrow> []
      | Some content \<Rightarrow> fold (parseEnvLine prefix) (splitOn CHR 0x0A content) [])"

definition envMode :: "world \<Rightarrow> string" where
  "envMode w = (if isProduction w then ''production'' else ''development'')"

definition envFiles :: "world \<Rightarrow> string list" where
  "envFiles w = [''.env'', ''.env.'' @ envMode w, ''.env.local'', ''.env.'' @ envMode w @ ''.local'']"

definition loadEnvFile :: "node_lib \<Rightarrow> world \<Rightarrow> string \<Rightarrow> string \<Rightarrow> EnvironmentVariables \<Rightarrow> EnvironmentVariables" where
  \<comment> \<open>the body of the loop over the files of \<open>loadReactEnv\<close>\<close>
  "loadEnvFile L w projectRoot envFile envVars =
     (let envPath = path_join L projectRoot envFile
      in if existsSync w envPath
         then objAssign (objAssign envVars (parseEnvFile w envPath REACT)) (parseEnvFile w envPath VITE)
         else envVars)"

definition addProcessEnv :: "world \<Rightarrow> EnvironmentVariables \<Rightarrow> EnvironmentVariables" where
  \<comment> \<open>the loop over \<open>Object.entries(process.env)\<close> of \<open>loadReactEnv\<close>\<close>
  "addProcessEnv w envVars =
     fold (\<lambda>(key, v) acc. if startsWith key REACT \<or> startsWith key VITE then AList.update key v acc else acc)
       (penv w) envVars"

definition loadReactEnv :: "node_lib \<Rightarrow> world \<Rightarrow> string \<Rightarrow> EnvironmentVariables" where
  "loadReactEnv L w projectRoot =
     addProcessEnv w (fold (loadEnvFile L w projectRoot) (envFiles w) [])"

definition fileDefines :: "node_lib \<Rightarrow> world \<Rightarrow> string \<Rightarrow> string \<Rightarrow> (string \<rightharpoonup> string)" where
  \<comment> \<open>what one environment file of the project root defines, read on its own\<close>
  "fileDefines L w projectRoot envFile = map_of (loadEnvFile L w projectRoot envFile [])"

definition processDefines :: "world \<Rightarrow> (string \<rightharpoonup> string)" where
  \<comment> \<open>the variables of the process environment with the React or the VITE prefix\<close>
  "processDefines w = map_of (addProcessEnv w [])"

subsection \<open>Angular: \<open>environment.ts\<close> files\<close>

definition ENVIRONMENT_EXPORT :: "string \<Rightarrow> string rmatch option" where
  \<comment> \<open>\<open>/export\s+const\s+environment\s*=\s*{([^}]+)}/s\<close>; the group is the text between the
      brace and the first closing brace after it, which must not be empty\<close>
  "ENVIRONMENT_EXPORT s =
     (case lit ''export'' s of None \<Rightarrow> None | Some r1 \<Rightarrow>
      case spaces1 r1 of None \<Rightarrow> None | Some r2 \<Rightarrow>
      case lit ''const'' r2 of None \<Rightarrow> None | Some r3 \<Rightarrow>
      case spaces1 r3 of None \<Rightarrow> None | Some r4 \<Rightarrow>
      case lit ''environment'' r4 of None \<Rightarrow> None | Some r5 \<Rightarrow>
      case lit ''='' (spaces0 r5) of None \<Rightarrow> None | Some r6 \<Rightarrow>
      case lit ''{'' (spaces0 r6) of None \<Rightarrow> None | Some r7 \<Rightarrow>
        (let body = takeWhile (\<lambda>c. c \<noteq> CHR ''}'') r7
         in case lit ''}'' (dropWhile (\<lambda>c. c \<noteq> CHR ''}'') r7) of
              None \<Rightarrow> None
            | Some r8 \<Rightarrow>
                if body = [] then None
                else Some \<lparr>whole = matched s r8, groups = body, rest = r8\<rparr>))"

definition quotedValue :: "string \<Rightarrow> (string \<times> string) option" where
  \<comment> \<open>\<open>['"]([^'"]*?)['"]\<close>: a quote, the text up to the next quote of either kind, that quote\<close>
  "quotedValue s =
     (case s of
        [] \<Rightarrow> None
      | q # t \<Rightarrow>
          if isQuoteChar q then
            (case dropWhile (\<lambda>c. \<not> isQuoteChar c) t of
               [] \<Rightarrow> None
             | q' # after \<Rightarrow> Some (takeWhile (\<lambda>c. \<not> isQuoteChar c) t, after))
          else None)"

definition isBareChar :: "char \<Rightarrow> bool" where
  \<comment> \<open>\<open>[^,\s}\n]\<close>\<close>
  "isBareChar c = (c \<noteq> CHR '','' \<and> \<not> isSpaceChar c \<and> c \<noteq> CHR ''}'' \<and> c \<noteq> CHR 0x0A)"

definition bareValue :: "string \<Rightarrow> (string \<times> string) option" where
  \<comment> \<open>\<open>([^,\s}\n]+)\<close>\<close>
  "bareValue s =
     (if takeWhile isBareChar s = [] then None
      else Some (takeWhile isBareChar s, dropWhile isBareChar s))"

definition optionalComma :: "string \<Rightarrow> string" where
  \<comment> \<open>\<open>\s*,?\<close>\<close>
  "optionalComma s = (case lit '','' (spaces0 s) of Some r \<Rightarrow> r | None \<Rightarrow> spaces0 s)"

definition propertyRegex :: "string \<Rightarrow> (string \<times> string option \<times> string option) rmatch option" where
  \<comment> \<open>\<open>/(\w+):\s*(?:['"]([^'"]*?)['"]|([^,\s}\n]+))\s*,?/g\<close> at the head of the text; the groups
      are the key, the quoted value and the bare value. The key is the longest run of
      word characters and must be followed by a colon; the quoted alternative is tried
      first; what follows a value always matches, so the first alternative that matches
      is kept.\<close>
  "propertyRegex s =
     (let key = takeWhile isWordChar s
      in if key = [] then None
         else (case lit '':'' (dropWhile isWordChar s) of
                 None \<Rightarrow> None
               | Some r1 \<Rightarrow>
                   (case quotedValue (spaces0 r1) of
                      Some (v, r2) \<Rightarrow>
                        Some \<lparr>whole = matched s (optionalComma r2), groups = (key, Some v, None),
                              rest = optionalComma r2\<rparr>
                    | None \<Rightarrow>
                        (case bareValue (spaces0 r1) of
                           Some (v, r2) \<Rightarrow>
                             Some \<lparr>whole = matched s (optionalComma r2), groups = (key, None, Some v),
                                   rest = optionalComma r2\<rparr>
                         | None \<Rightarrow> None))))"

definition isConstantCase :: "string \<Rightarrow> bool" where
  \<comment> \<open>\<open>/^[A-Z0-9_]+$/.test(key)\<close>\<close>
  "isConstantCase key =
     (key \<noteq> [] \<and> list_all (\<lambda>c. isUpperChar c \<or> isDigitChar c \<or> c = CHR ''_'') key)"

definition angularEnvKey :: "string \<Rightarrow> string" where
  "angularEnvKey key =
     (if isConstantCase key then ANGULAR @ key else ANGULAR @ camelCaseToUpperCase key)"

definition propertyValue :: "(string \<times> string option \<times> string option) \<Rightarrow> string" where
  \<comment> \<open>\<open>match[2] ?? match[3] ?? ''\<close>\<close>
  "propertyValue g =
     (case fst (snd g) of Some v \<Rightarrow> v | None \<Rightarrow> (case snd (snd g) of Some v \<Rightarrow> v | None \<Rightarrow> []))"

definition addProperty ::
  "(string \<times> string option \<times> string option) rmatch \<Rightarrow> EnvironmentVariables \<Rightarrow> EnvironmentVariables" where
  \<comment> \<open>the body of the loop over the matches of \<open>parseAngularEnvFile\<close>\<close>
  "addProperty r envVars =
     (let key = fst (groups r); v = propertyValue (groups r)
      in if key \<noteq> [] \<and> isValidEnvironmentValue v \<and> v \<noteq> ''false'' \<and> v \<noteq> ''true''
         then AList.update (angularEnvKey key) v envVars
         else envVars)"

definition parseAngularEnvContent :: "string \<Rightarrow> EnvironmentVariables" where
  \<comment> \<open>\<open>parseAngularEnvFile\<close> after the file has been read\<close>
  "parseAngularEnvContent content =
     (case execFirst ENVIRONMENT_EXPORT content of
        None \<Rightarrow> []
      | Some (preceding, envMatch) \<Rightarrow> fold addProperty (matchAll propertyRegex (groups envMatch)) [])"

definition parseAngularEnvFile :: "world \<Rightarrow> string \<Rightarrow> EnvironmentVariables" where
  "parseAngularEnvFile w envPath =
     (if \<not> existsSync w envPath then []
      else (case readFileSync w envPath of
              None \<Rightarrow> []
            | Some content \<Rightarrow> parseAngularEnvContent content))"

definition loadAngularWorkspace :: "node_lib \<Rightarrow> world \<Rightarrow> string \<Rightarrow> AngularWorkspace option" where
  \<comment> \<open>\<open>None\<close>: \<open>null\<close>, or a parsed value that is falsy\<close>
  "loadAngularWorkspace L w projectRoot =
     (let angularJsonPath = path_join L projectRoot ''angular.json''
      in if \<not> existsSync w angularJsonPath then None
         else (case readFileSync w angularJsonPath of
                 None \<Rightarrow> None
               | Some content \<Rightarrow>
                   (case json_workspace L content of
                      None \<Rightarrow> None
                    | Some parsed \<Rightarrow> parsed)))"

definition orElse :: "string \<Rightarrow> string \<Rightarrow> string" where
  \<comment> \<open>\<open>a || b\<close> on strings\<close>
  "orElse a b = (if a = [] then b else a)"

definition environmentsPath :: "node_lib \<Rightarrow> string \<Rightarrow> json_text \<Rightarrow> string \<Rightarrow> error + string" where
  \<comment> \<open>\<open>path.join(projectRoot, config.sourceRoot || 'src', 'environments', envFile)\<close>\<close>
  "environmentsPath L projectRoot configSourceRoot envFile =
     (case configSourceRoot of
        NonText \<Rightarrow> Inl TypeError
      | Text s \<Rightarrow> Inr (join4 L projectRoot (orElse s ''src'') ''environments'' envFile))"

fun findProjectInEntries ::
  "node_lib \<Rightarrow> world \<Rightarrow> (string \<times> AngularProject option) list \<Rightarrow> string \<Rightarrow> string \<Rightarrow> string
   \<Rightarrow> error + EnvironmentVariables" where
  \<comment> \<open>the loop of \<open>findProjectForHtmlPath\<close> over \<open>Object.entries(workspace.projects)\<close>\<close>
  "findProjectInEntries L w [] projectRoot normalizedPath envFile = Inr []"
| "findProjectInEntries L w ((name, None) # projects) projectRoot normalizedPath envFile =
     Inl TypeError"
| "findProjectInEntries L w ((name, Some config) # projects) projectRoot normalizedPath envFile =
     (if projectType config = ''application'' then
        (case root config of
           NonText \<Rightarrow> Inl TypeError
         | Text configRoot \<Rightarrow>
             (let projectBasePath = path_join L projectRoot (orElse configRoot []);
                  relativePath = path_relative L projectBasePath normalizedPath
              in if \<not> startsWith relativePath ''..'' \<and> \<not> path_isAbsolute L relativePath
                 then map_sum id (parseAngularEnvFile w)
                        (environmentsPath L projectRoot (sourceRoot config) envFile)
                 else findProjectInEntries L w projects projectRoot normalizedPath envFile))
      else findProjectInEntries L w projects projectRoot normalizedPath envFile)"

definition findProjectForHtmlPath ::
  "node_lib \<Rightarrow> world \<Rightarrow> AngularWorkspace \<Rightarrow> string \<Rightarrow> string \<Rightarrow> string
   \<Rightarrow> error + EnvironmentVariables" where
  "findProjectForHtmlPath L w workspace projectRoot targetHtmlPath envFile =
     (let normalizedPath = path_normalize L targetHtmlPath
      in case workspace of
           NoProjects \<Rightarrow> Inl TypeError
         | Projects projects \<Rightarrow>
             findProjectInEntries L w projects projectRoot normalizedPath envFile)"

fun loadAllEntries ::
  "node_lib \<Rightarrow> world \<Rightarrow> (string \<times> AngularProject option) list \<Rightarrow> string \<Rightarrow> string
   \<Rightarrow> EnvironmentVariables \<Rightarrow> error + EnvironmentVariables" where
  \<comment> \<open>the loop of \<open>loadAllWorkspaceProjects\<close> over \<open>Object.entries(workspace.projects)\<close>\<close>
  "loadAllEntries L w [] projectRoot envFile envVars = Inr envVars"
| "loadAllEntries L w ((name, None) # projects) projectRoot envFile envVars = Inl TypeError"
| "loadAllEntries L w ((name, Some config) # projects) projectRoot envFile envVars =
     (if projectType config = ''application'' then
        (case environmentsPath L projectRoot (sourceRoot config) envFile of
           Inl e \<Rightarrow> Inl e
         | Inr envPath \<Rightarrow>
             loadAllEntries L w projects projectRoot envFile
               (objAssign envVars (parseAngularEnvFile w envPath)))
      else loadAllEntries L w projects projectRoot envFile envVars)"

definition loadAllWorkspaceProjects ::
  "node_lib \<Rightarrow> world \<Rightarrow> AngularWorkspace \<Rightarrow> string \<Rightarrow> string \<Rightarrow> error + EnvironmentVariables" where
  "loadAllWorkspaceProjects L w workspace projectRoot envFile =
     (case workspace of
        NoProjects \<Rightarrow> Inl TypeError
      | Projects projects \<Rightarrow> loadAllEntries L w projects projectRoot envFile [])"

definition angularEnvFile :: "world \<Rightarrow> string" where
  "angularEnvFile w = (if isProduction w then ''environment.prod.ts'' else ''environment.ts'')"

definition loadAngularEnv ::
  "node_lib \<Rightarrow> world \<Rightarrow> string \<Rightarrow> string option \<Rightarrow> error + EnvironmentVariables" where
  \<comment> \<open>the project of the HTML file, else all projects of the workspace, else the
      environment file of the project root; an exception of the first two ends the call\<close>
  "loadAngularEnv L w projectRoot targetHtmlPath =
     (let envFile = angularEnvFile w;
          workspace = loadAngularWorkspace L w projectRoot;
          fallback = parseAngularEnvFile w (join4 L projectRoot ''src'' ''environments'' envFile)
      in case workspace of
           None \<Rightarrow> Inr fallback
         | Some ws \<Rightarrow>
             (case (case targetHtmlPath of
                      None \<Rightarrow> Inr []
                    | Some t \<Rightarrow>
                        if t \<noteq> [] then findProjectForHtmlPath L w ws projectRoot t envFile
                        else Inr []) of
                Inl e \<Rightarrow> Inl e
              | Inr projectVars \<Rightarrow>
                  if projectVars \<noteq> [] then Inr projectVars
                  else (case loadAllWorkspaceProjects L w ws projectRoot envFile of
                          Inl e \<Rightarrow> Inl e
                        | Inr workspaceVars \<Rightarrow>
                            if workspaceVars \<noteq> [] then Inr workspaceVars else Inr fallback)))"

subsection \<open>Project detection (\<open>src/utils/project-detection.ts\<close>) and the main entry\<close>

definition hasAngularEnvironmentFiles :: "node_lib \<Rightarrow> world \<Rightarrow> string \<Rightarrow> bool" where
  "hasAngularEnvironmentFiles L w projectRoot =
     (existsSync w (join3 L projectRoot ''src'' ''environments'')
      \<or> existsSync w (path_join L projectRoot ''projects''))"

definition isAngularProject :: "node_lib \<Rightarrow> world \<Rightarrow> string \<Rightarrow> bool" where
  "isAngularProject L w projectRoot =
     (if existsSync w (path_join L projectRoot ''angular.json'')
         \<or> existsSync w (path_join L projectRoot ''.angular-cli.json'')
      then True
      else hasAngularEnvironmentFiles L w projectRoot)"

definition isReactProject :: "node_lib \<Rightarrow> world \<Rightarrow> string \<Rightarrow> bool" where
  "isReactProject L w projectRoot =
     (let packageJsonPath = path_join L projectRoot ''package.json''
      in if \<not> existsSync w packageJsonPath then False
         else (case readFileSync w packageJsonPath of
                 None \<Rightarrow> False
               | Some content \<Rightarrow>
                   (case json_package L content of
                      None \<Rightarrow> False
                    | Some deps \<Rightarrow> ''react'' \<in> set deps \<or> ''@types/react'' \<in> set deps)))"

definition loadEnvironmentVariables ::
  "node_lib \<Rightarrow> world \<Rightarrow> string \<Rightarrow> string option \<Rightarrow> error + EnvironmentVariables" where
  \<comment> \<open>\<open>Inl\<close>: the exception of \<open>loadAngularEnv\<close>, which nothing catches\<close>
  "loadEnvironmentVariables L w projectRoot targetHtmlPath =
     map_sum id filterValidEnvironmentVariables
       (if isAngularProject L w projectRoot then loadAngularEnv L w projectRoot targetHtmlPath
        else if isReactProject L w projectRoot then Inr (loadReactEnv L w projectRoot)
        else map_sum id (objAssign (objAssign [] (loadReactEnv L w projectRoot)))
               (loadAngularEnv L w projectRoot targetHtmlPath))"
section \<open>The configuration loader (\<open>src/utils/config-loader.ts\<close>)\<close>

record baseConfigs =
  DEFAULT :: CSPConfig
  PRODUCTION :: CSPConfig

definition getDefaultConfigForEnvironment :: "baseConfigs \<Rightarrow> EnvironmentVariables \<Rightarrow> CSPConfig" where
  \<comment> \<open>\<open>envVars['NODE_ENV'] === 'production'\<close>; \<open>NODE_ENV\<close> is not an inherited member\<close>
  "getDefaultConfigForEnvironment configs envVars =
     (if map_of envVars ''NODE_ENV'' = Some ''production'' then PRODUCTION configs else DEFAULT configs)"

definition orField :: "'a option \<Rightarrow> 'a option \<Rightarrow> 'a option" where
  \<comment> \<open>a field of \<open>{...base, ...user}\<close>: the user's when the user's object has the key\<close>
  "orField user base = (case user of Some v \<Rightarrow> Some v | None \<Rightarrow> base)"

definition mergeConfigWithDefaults :: "CSPConfig \<Rightarrow> PartialCSPConfig \<Rightarrow> CSPConfig" where
  \<comment> \<open>\<open>{...defaultConfig, ...config, directives: {...defaultConfig.directives, ...config.directives}}\<close>;
      the same expression merges a parsed file over its base in \<open>loadConfigFromFile\<close> and
      the constructor's argument over \<open>DEFAULT_CONFIG\<close> in \<open>mergeConfigs\<close>\<close>
  "mergeConfigWithDefaults defaultConfig config =
     \<lparr>directives =
        objAssign (objAssign [] (directives defaultConfig))
          (case p_directives config of Some d \<Rightarrow> d | None \<Rightarrow> []),
      useNonce = orField (p_useNonce config) (useNonce defaultConfig),
      nonceLength = orField (p_nonceLength config) (nonceLength defaultConfig),
      reportOnly = orField (p_reportOnly config) (reportOnly defaultConfig)\<rparr>"

definition safeJsonParse :: "node_lib \<Rightarrow> string \<Rightarrow> parsed_config option" where
  \<comment> \<open>\<open>None\<close> is the \<open>null\<close> of the \<open>catch\<close> branch. Removing \<open>__proto__\<close>, \<open>constructor\<close> and
      \<open>prototype\<close> does not change the fields of \<open>Partial<CSPConfig>\<close>.\<close>
  "safeJsonParse L jsonString = json_config L jsonString"

definition tryReadSpecifiedConfig ::
  "world \<Rightarrow> string option \<Rightarrow> string list \<times> (string \<times> string) option" where
  \<comment> \<open>the warnings logged, and the content with the path\<close>
  "tryReadSpecifiedConfig w configPath =
     (case configPath of
        None \<Rightarrow> ([], None)
      | Some p \<Rightarrow>
          if p = [] \<or> \<not> existsSync w p then ([], None)
          else (case readFileSync w p of
                  Some content \<Rightarrow> ([], Some (content, p))
                | None \<Rightarrow> ([''Warning: Could not read config file '' @ p @ '', using defaults''], None)))"

definition tryReadDefaultConfig ::
  "node_lib \<Rightarrow> world \<Rightarrow> string list \<times> (string \<times> string) option" where
  "tryReadDefaultConfig L w =
     (let defaultPath = path_resolve L (cwd w) ''csp.config.json''
      in if \<not> existsSync w defaultPath then ([], None)
         else (case readFileSync w defaultPath of
                 Some content \<Rightarrow> ([], Some (content, defaultPath))
               | None \<Rightarrow> ([''Warning: Could not read csp.config.json, using defaults''], None)))"

definition readConfigFile ::
  "node_lib \<Rightarrow> world \<Rightarrow> string option \<Rightarrow> string list \<times> (string \<times> string) option" where
  "readConfigFile L w configPath =
     (case tryReadSpecifiedConfig w configPath of
        (warnings, Some found) \<Rightarrow> (warnings, Some found)
      | (warnings, None) \<Rightarrow>
          (case tryReadDefaultConfig L w of (warnings', found) \<Rightarrow> (warnings @ warnings', found)))"

definition loadConfigFromFile ::
  "node_lib \<Rightarrow> world \<Rightarrow> baseConfigs \<Rightarrow> EnvironmentVariables \<Rightarrow> string option
   \<Rightarrow> string list \<times> CSPConfig option" where
  "loadConfigFromFile L w configs envVars configPath =
     (case readConfigFile L w configPath of
        (warnings, None) \<Rightarrow> (warnings, None)
      | (warnings, Some (content, filePath)) \<Rightarrow>
          if content = [] \<or> filePath = [] then (warnings, None)
          else (case safeJsonParse L (resolveTemplateVariables content envVars) of
                  Some (Parsed userConfig) \<Rightarrow>
                    (warnings,
                     Some (mergeConfigWithDefaults (getDefaultConfigForEnvironment configs envVars) userConfig))
                | _ \<Rightarrow>
                    (warnings @ [''Warning: Invalid config file '' @ filePath @ '', using defaults''], None)))"

definition getFrameworkEnvironmentVariables :: "EnvironmentVariables \<Rightarrow> string list" where
  "getFrameworkEnvironmentVariables envVars =
     filter (\<lambda>key. startsWith key ''REACT_APP_'' \<or> startsWith key ''VITE_'' \<or> startsWith key ''NG_'')
       (map fst envVars)"

definition enhanceDirective ::
  "string list \<Rightarrow> string \<Rightarrow> (string \<times> string list) list \<Rightarrow> (string \<times> string list) list" where
  \<comment> \<open>the body of \<open>directivesToEnhance.forEach\<close>; the three names read are not inherited
      members\<close>
  "enhanceDirective placeholders directive enhancedDirectives =
     (case map_of enhancedDirectives directive of
        Some existingValues \<Rightarrow> AList.update directive (existingValues @ placeholders) enhancedDirectives
      | None \<Rightarrow> enhancedDirectives)"

definition enhanceConfigWithVariables :: "CSPConfig \<Rightarrow> string list \<Rightarrow> CSPConfig" where
  "enhanceConfigWithVariables baseConfig variables =
     baseConfig\<lparr>directives :=
       fold (enhanceDirective (map placeholder variables)) [''connect-src'', ''script-src'', ''img-src'']
         (objAssign [] (directives baseConfig))\<rparr>"

definition createEnhancedDefaultConfig :: "baseConfigs \<Rightarrow> EnvironmentVariables \<Rightarrow> CSPConfig option" where
  "createEnhancedDefaultConfig configs envVars =
     (let frameworkVars = getFrameworkEnvironmentVariables envVars
      in if frameworkVars = [] then None
         else Some (enhanceConfigWithVariables (getDefaultConfigForEnvironment configs envVars) frameworkVars))"

definition defaultsFor :: "baseConfigs \<Rightarrow> EnvironmentVariables \<Rightarrow> CSPConfig" where
  \<comment> \<open>what \<open>loadConfig\<close> returns when no configuration file is used: the enhanced defaults,
      or else the plain default\<close>
  "defaultsFor configs envVars =
     (case createEnhancedDefaultConfig configs envVars of
        Some enhancedConfig \<Rightarrow> enhancedConfig
      | None \<Rightarrow> getDefaultConfigForEnvironment configs envVars)"

definition loadConfig ::
  "node_lib \<Rightarrow> world \<Rightarrow> baseConfigs \<Rightarrow> string option \<Rightarrow> EnvironmentVariables option
   \<Rightarrow> string list \<times> CSPConfig" where
  \<comment> \<open>the warnings logged and the configuration returned; no path of the function throws\<close>
  "loadConfig L w configs configPath envVars =
     (let resolvedEnvVars = (case envVars of Some e \<Rightarrow> e | None \<Rightarrow> [])
      in case loadConfigFromFile L w configs resolvedEnvVars configPath of
           (warnings, Some configFromFile) \<Rightarrow> (warnings, configFromFile)
         | (warnings, None) \<Rightarrow> (warnings, defaultsFor configs resolvedEnvVars))"

section \<open>The HTML locator (\<open>src/utils/html-detector.ts\<close>)\<close>

record HTMLDetectionResult =
  path :: string
  buildDir :: string
  hasExistingCSP :: bool

definition HTML_SEARCH_PATHS_DEV :: "string list" where
  "HTML_SEARCH_PATHS_DEV =
     [''projects/*/src/index.html'', ''src/index.html'', ''public/index.html'', ''index.html'']"

definition HTML_SEARCH_PATHS_PROD :: "string list" where
  "HTML_SEARCH_PATHS_PROD =
     [''dist/index.html'', ''build/index.html'', ''www/index.html'', ''public/index.html'',
      ''index.html'']"

fun someSplit :: "(char \<Rightarrow> bool) \<Rightarrow> (string \<Rightarrow> 'a option) \<Rightarrow> string \<Rightarrow> 'a option" where
  \<comment> \<open>a class repeated, then a continuation: the continuation is tried after every number
      of characters of the class\<close>
  "someSplit P k [] = k []"
| "someSplit P k (c # cs) =
     (case k (c # cs) of
        Some r \<Rightarrow> Some r
      | None \<Rightarrow> if P c then someSplit P k cs else None)"

definition cspAttribute :: "string \<Rightarrow> string option" where
  \<comment> \<open>\<open>http-equiv\s*=\s*["']Content-Security-Policy\<close> with the \<open>i\<close> flag\<close>
  "cspAttribute s =
     (case litCI ''http-equiv'' s of None \<Rightarrow> None | Some r1 \<Rightarrow>
      case lit ''='' (spaces0 r1) of None \<Rightarrow> None | Some r2 \<Rightarrow>
      case spaces0 r2 of [] \<Rightarrow> None | q # r3 \<Rightarrow>
        if isQuoteChar q then litCI ''Content-Security-Policy'' r3 else None)"

definition CSP_DETECTION :: "string \<Rightarrow> unit rmatch option" where
  \<comment> \<open>\<open>/^.*<meta\s+[^>]*http-equiv\s*=\s*["']Content-Security-Policy.*$/im\<close>, from the
      \<open><meta\<close> on: the \<open>^.*\<close> preceding it matches the start of its line and the \<open>.*$\<close> after
      it the rest of the last line, whatever they hold. After the first white space,
      \<open>[^>]*\<close> can take the rest of \<open>\s+\<close>.\<close>
  "CSP_DETECTION s =
     (case litCI ''<meta'' s of None \<Rightarrow> None | Some r1 \<Rightarrow>
      case r1 of [] \<Rightarrow> None | c # cs \<Rightarrow>
        if isSpaceChar c then
          (case someSplit (\<lambda>c. c \<noteq> CHR ''>'') cspAttribute cs of
             None \<Rightarrow> None
           | Some r2 \<Rightarrow> Some \<lparr>whole = matched s r2, groups = (), rest = r2\<rparr>)
        else None)"

definition createHTMLDetectionResult ::
  "node_lib \<Rightarrow> world \<Rightarrow> string \<Rightarrow> string \<Rightarrow> error + HTMLDetectionResult" where
  "createHTMLDetectionResult L w fullPath htmlPath =
     (case readFileSync w fullPath of
        None \<Rightarrow> Inl (FsError fullPath)
      | Some content \<Rightarrow>
          Inr \<lparr>path = fullPath, buildDir = path_dirname L htmlPath,
               hasExistingCSP = testRegex CSP_DETECTION content\<rparr>)"

definition getAngularBuildPaths :: "node_lib \<Rightarrow> world \<Rightarrow> error + string list" where
  \<comment> \<open>the read of an \<open>angular.json\<close> that exists is outside any \<open>try\<close>\<close>
  "getAngularBuildPaths L w =
     (let angularJsonPath = path_resolve L (cwd w) ''angular.json''
      in if \<not> existsSync w angularJsonPath then Inr []
         else (case readFileSync w angularJsonPath of
                 None \<Rightarrow> Inl (FsError angularJsonPath)
               | Some content \<Rightarrow>
                   (case json_build L content of
                      Some (Some projects) \<Rightarrow>
                        Inr (map (\<lambda>outputPath. outputPath @ ''/index.html'')
                               (concat (map (\<lambda>p. case p of
                                                    None \<Rightarrow> []
                                                  | Some outputPath \<Rightarrow>
                                                      if outputPath = [] then [] else [outputPath])
                                          projects)))
                    | _ \<Rightarrow> Inr [])))"

definition getHTMLSearchPaths :: "node_lib \<Rightarrow> world \<Rightarrow> bool \<Rightarrow> error + string list" where
  "getHTMLSearchPaths L w devMode =
     (if devMode then Inr HTML_SEARCH_PATHS_DEV
      else (case getAngularBuildPaths L w of
              Inl e \<Rightarrow> Inl e
            | Inr angularPaths \<Rightarrow> Inr (angularPaths @ [''dist/*/index.html''] @ HTML_SEARCH_PATHS_PROD)))"

fun allDirectories :: "node_lib \<Rightarrow> world \<Rightarrow> string \<Rightarrow> string list \<Rightarrow> string list option" where
  \<comment> \<open>\<open>items.filter(item => fs.statSync(path.join(searchDir, item)).isDirectory())\<close>;
      \<open>None\<close> when a \<open>statSync\<close> throws\<close>
  "allDirectories L w searchDir [] = Some []"
| "allDirectories L w searchDir (item # items) =
     (case statIsDirectory w (path_join L searchDir item) of
        None \<Rightarrow> None
      | Some isDir \<Rightarrow>
          (case allDirectories L w searchDir items of
             None \<Rightarrow> None
           | Some dirs \<Rightarrow> Some (if isDir then item # dirs else dirs)))"

fun firstSubdir ::
  "node_lib \<Rightarrow> world \<Rightarrow> string \<Rightarrow> string \<Rightarrow> string list \<Rightarrow> HTMLDetectionResult option" where
  \<comment> \<open>the loop over the subdirectories; an exception of \<open>createHTMLDetectionResult\<close> is
      caught by the \<open>try\<close> around the loop and the search of this pattern ends with \<open>null\<close>\<close>
  "firstSubdir L w searchDir afterStar [] = None"
| "firstSubdir L w searchDir afterStar (subdir # subdirs) =
     (let potentialPath = path_join L searchDir (subdir @ afterStar)
      in if existsSync w potentialPath then
           (case createHTMLDetectionResult L w potentialPath (path_relative L (cwd w) potentialPath) of
              Inl e \<Rightarrow> None
            | Inr result \<Rightarrow> Some result)
         else firstSubdir L w searchDir afterStar subdirs)"

definition searchGlobPattern :: "node_lib \<Rightarrow> world \<Rightarrow> string \<Rightarrow> HTMLDetectionResult option" where
  "searchGlobPattern L w htmlPath =
     (case splitOn CHR ''*'' htmlPath of
        beforeStar # afterStar # others \<Rightarrow>
          if beforeStar = [] then None
          else (let searchDir = path_resolve L (cwd w) beforeStar
                in if \<not> existsSync w searchDir then None
                   else (case readdirSync w searchDir of
                           None \<Rightarrow> None
                         | Some items \<Rightarrow>
                             (case allDirectories L w searchDir items of
                                None \<Rightarrow> None
                              | Some subdirs \<Rightarrow> firstSubdir L w searchDir afterStar subdirs)))
      | _ \<Rightarrow> None)"

definition findHTMLFile :: "node_lib \<Rightarrow> world \<Rightarrow> string \<Rightarrow> error + HTMLDetectionResult option" where
  "findHTMLFile L w htmlPath =
     (if CHR ''*'' \<in> set htmlPath then Inr (searchGlobPattern L w htmlPath)
      else (let fullPath = path_resolve L (cwd w) htmlPath
            in if existsSync w fullPath then
                 (case createHTMLDetectionResult L w fullPath htmlPath of
                    Inl e \<Rightarrow> Inl e
                  | Inr result \<Rightarrow> Inr (Some result))
               else Inr None))"

fun firstFound :: "node_lib \<Rightarrow> world \<Rightarrow> string list \<Rightarrow> error + HTMLDetectionResult option" where
  \<comment> \<open>the loop of \<open>detectHTML\<close> over the search paths\<close>
  "firstFound L w [] = Inr None"
| "firstFound L w (htmlPath # searchPaths) =
     (case findHTMLFile L w htmlPath of
        Inl e \<Rightarrow> Inl e
      | Inr (Some result) \<Rightarrow> Inr (Some result)
      | Inr None \<Rightarrow> firstFound L w searchPaths)"

definition detectHTML :: "node_lib \<Rightarrow> world \<Rightarrow> bool \<Rightarrow> error + HTMLDetectionResult option" where
  "detectHTML L w devMode =
     (case getHTMLSearchPaths L w devMode of
        Inl e \<Rightarrow> Inl e
      | Inr searchPaths \<Rightarrow> firstFound L w searchPaths)"

subsection \<open>Rewriting the document\<close>

definition reportOnlySuffix :: "string \<Rightarrow> string option" where
  \<comment> \<open>\<open>(?:-Report-Only)?["']\<close> with the \<open>i\<close> flag\<close>
  "reportOnlySuffix s =
     (let withSuffix =
            (case litCI ''-Report-Only'' s of
               None \<Rightarrow> None
             | Some r \<Rightarrow> (case r of [] \<Rightarrow> None | q # t \<Rightarrow> if isQuoteChar q then Some t else None))
      in case withSuffix of
           Some t \<Rightarrow> Some t
         | None \<Rightarrow> (case s of [] \<Rightarrow> None | q # t \<Rightarrow> if isQuoteChar q then Some t else None))"

definition cspTagAttribute :: "string \<Rightarrow> string option" where
  \<comment> \<open>\<open>http-equiv\s*=\s*["']Content-Security-Policy(?:-Report-Only)?["'][^>]*>\<close>\<close>
  "cspTagAttribute s =
     (case cspAttribute s of None \<Rightarrow> None | Some r1 \<Rightarrow>
      case reportOnlySuffix r1 of None \<Rightarrow> None | Some r2 \<Rightarrow>
        lit ''>'' (dropWhile (\<lambda>c. c \<noteq> CHR ''>'') r2))"

fun cspTagBody :: "bool \<Rightarrow> string \<Rightarrow> string option" where
  \<comment> \<open>\<open>(?:[^>]*\s+)?http-equiv...\<close> after the first white space of \<open>\s+\<close>: the attribute may
      start wherever the character preceding it is white space and no \<open>>\<close> has been passed.
      Every such start that matches ends the tag at the same \<open>>\<close>.\<close>
  "cspTagBody afterSpace [] = None"
| "cspTagBody afterSpace (c # cs) =
     (case (if afterSpace then cspTagAttribute (c # cs) else None) of
        Some r \<Rightarrow> Some r
      | None \<Rightarrow> if c = CHR ''>'' then None else cspTagBody (isSpaceChar c) cs)"

definition CSP_TAG :: "string \<Rightarrow> unit rmatch option" where
  \<comment> \<open>the expression of \<open>processHTMLContent\<close>:
      \<open>/[\r\n\s]*<meta\s+(?:[^>]*\s+)?http-equiv\s*=\s*["']Content-Security-Policy(?:-Report-Only)?["'][^>]*>[\r\n\s]*/gim\<close>\<close>
  "CSP_TAG s =
     (case litCI ''<meta'' (spaces0 s) of None \<Rightarrow> None | Some r1 \<Rightarrow>
      case r1 of [] \<Rightarrow> None | c # cs \<Rightarrow>
        if isSpaceChar c then
          (case cspTagBody True cs of
             None \<Rightarrow> None
           | Some r2 \<Rightarrow> Some \<lparr>whole = matched s (spaces0 r2), groups = (), rest = spaces0 r2\<rparr>)
        else None)"

definition HEAD_TAG :: "string \<Rightarrow> string rmatch option" where
  \<comment> \<open>\<open>/(<head[^>]*>)/i\<close>; the group is the whole match. \<open>/^.*<head[^>]*>.*$/im\<close> matches
      exactly when this one does.\<close>
  "HEAD_TAG s =
     (case litCI ''<head'' s of None \<Rightarrow> None | Some r1 \<Rightarrow>
      case lit ''>'' (dropWhile (\<lambda>c. c \<noteq> CHR ''>'') r1) of None \<Rightarrow> None | Some r2 \<Rightarrow>
        Some \<lparr>whole = matched s r2, groups = matched s r2, rest = r2\<rparr>)"

fun getSubstitution :: "string \<Rightarrow> string \<Rightarrow> string \<Rightarrow> string \<Rightarrow> string \<Rightarrow> string" where
  \<comment> \<open>the replacement text of \<open>String.prototype.replace\<close> for a pattern with one capture
      group: \<open>$$\<close>, \<open>$&\<close>, \<open>$`\<close>, \<open>$'\<close>, \<open>$1\<close> and \<open>$01\<close> are expanded, every other text is
      copied\<close>
  "getSubstitution matchedText preceding after capture [] = []"
| "getSubstitution matchedText preceding after capture [c] = [c]"
| "getSubstitution matchedText preceding after capture (c # d # t) =
     (if c \<noteq> CHR ''$'' then c # getSubstitution matchedText preceding after capture (d # t)
      else if d = CHR ''$'' then CHR ''$'' # getSubstitution matchedText preceding after capture t
      else if d = CHR ''&'' then matchedText @ getSubstitution matchedText preceding after capture t
      else if d = CHR 0x60 then preceding @ getSubstitution matchedText preceding after capture t
      else if d = CHR 0x27 then after @ getSubstitution matchedText preceding after capture t
      else if d = CHR ''1'' then capture @ getSubstitution matchedText preceding after capture t
      else if d = CHR ''0'' \<and> take 1 t = ''1''
        then capture @ getSubstitution matchedText preceding after capture (drop 1 t)
      else c # getSubstitution matchedText preceding after capture (d # t))"

definition injectMetaTag :: "string \<Rightarrow> string \<Rightarrow> string" where
  "injectMetaTag html metaTag =
     (case execFirst HEAD_TAG html of
        Some (preceding, headMatch) \<Rightarrow>
          preceding
          @ getSubstitution (whole headMatch) preceding (rest headMatch) (groups headMatch)
              (''$1'' @ [CHR 0x0A] @ metaTag)
          @ rest headMatch
      | None \<Rightarrow> metaTag @ [CHR 0x0A] @ html)"

record processed =
  modifiedHtml :: string
  replacedTags :: nat

definition processHTMLContent :: "string \<Rightarrow> string \<Rightarrow> bool \<Rightarrow> processed" where
  "processHTMLContent html csp isReportOnly =
     (let metaType = (if isReportOnly then ''Content-Security-Policy-Report-Only''
                      else ''Content-Security-Policy'');
          metaTag = ''<meta http-equiv=\"'' @ metaType @ ''\" content=\"'' @ csp @ ''\">'';
          removed = replaceGlobal CSP_TAG (\<lambda>r. []) html
      in \<lparr>modifiedHtml = injectMetaTag removed metaTag, replacedTags = 1\<rparr>)"

definition WORKSPACE_INDEX :: "string \<Rightarrow> (string \<times> string) option" where
  \<comment> \<open>\<open>/^(.*)projects[/\\]([^/\\]+)[/\\]src[/\\]index\.html$/\<close> on a whole path, read from its
      end: the groups are the text preceding \<open>projects\<close> and the project's name\<close>
  "WORKSPACE_INDEX s =
     (let isSep = (\<lambda>c. c = CHR ''/'' \<or> c = CHR 0x5C)
      in case lit (rev ''index.html'') (rev s) of None \<Rightarrow> None | Some r1 \<Rightarrow>
         case r1 of [] \<Rightarrow> None | s1 # r2 \<Rightarrow> if \<not> isSep s1 then None else
         case lit (rev ''src'') r2 of None \<Rightarrow> None | Some r3 \<Rightarrow>
         case r3 of [] \<Rightarrow> None | s2 # r4 \<Rightarrow> if \<not> isSep s2 then None else
         (let name = takeWhile (\<lambda>c. \<not> isSep c) r4
          in case dropWhile (\<lambda>c. \<not> isSep c) r4 of [] \<Rightarrow> None | s3 # r5 \<Rightarrow>
             if name = [] then None else
             case lit (rev ''projects'') r5 of None \<Rightarrow> None | Some r6 \<Rightarrow>
               if list_ex isLineTerminator r6 then None else Some (rev r6, rev name)))"

definition detectAngularWorkspaceRoot :: "node_lib \<Rightarrow> world \<Rightarrow> string \<Rightarrow> string \<Rightarrow> string" where
  "detectAngularWorkspaceRoot L w projectRoot htmlPath =
     (let htmlPathNormalized = path_normalize L (path_relative L (cwd w) htmlPath)
      in case WORKSPACE_INDEX htmlPathNormalized of
           None \<Rightarrow> projectRoot
         | Some (workspaceRoot, projectName) \<Rightarrow>
             (let workspaceProjectRoot =
                    path_resolve L (path_resolve L (path_resolve L (cwd w) workspaceRoot) ''projects'')
                      projectName
              in if existsSync w (join4 L workspaceProjectRoot ''src'' ''environments'' ''environment.ts'')
                 then workspaceProjectRoot
                 else projectRoot))"

section \<open>The injector (\<open>src/csp-injector.ts\<close>) and the mode signal (\<open>node-env-manager\<close>)\<close>

definition BASE_DIRECTIVES :: "(string \<times> string list) list" where
  "BASE_DIRECTIVES =
     [(''default-src'', [[CHR 0x27] @ ''self'' @ [CHR 0x27]]),
      (''style-src'', [[CHR 0x27] @ ''self'' @ [CHR 0x27], [CHR 0x27] @ ''unsafe-inline'' @ [CHR 0x27]]),
      (''img-src'', [[CHR 0x27] @ ''self'' @ [CHR 0x27], ''data:'', ''blob:'']),
      (''font-src'', [[CHR 0x27] @ ''self'' @ [CHR 0x27], ''data:'']),
      (''connect-src'', [[CHR 0x27] @ ''self'' @ [CHR 0x27]]),
      (''worker-src'', [[CHR 0x27] @ ''self'' @ [CHR 0x27], ''blob:'']),
      (''manifest-src'', [[CHR 0x27] @ ''self'' @ [CHR 0x27]])]"

definition DEFAULT_CONFIG :: CSPConfig where
  "DEFAULT_CONFIG =
     \<lparr>directives =
        objAssign (objAssign [] BASE_DIRECTIVES)
          [(''script-src'', [[CHR 0x27] @ ''self'' @ [CHR 0x27], [CHR 0x27] @ ''unsafe-inline'' @ [CHR 0x27]])],
      useNonce = Some False, nonceLength = Some 16, reportOnly = Some False\<rparr>"

definition PRODUCTION_CONFIG :: CSPConfig where
  "PRODUCTION_CONFIG =
     \<lparr>directives =
        objAssign (objAssign [] BASE_DIRECTIVES) [(''script-src'', [[CHR 0x27] @ ''self'' @ [CHR 0x27]])],
      useNonce = Some True, nonceLength = Some 24, reportOnly = Some False\<rparr>"

definition injectorBaseConfigs :: baseConfigs where
  "injectorBaseConfigs = \<lparr>DEFAULT = DEFAULT_CONFIG, PRODUCTION = PRODUCTION_CONFIG\<rparr>"

record CSPInjector =
  config :: CSPConfig
  envVars :: EnvironmentVariables

definition asPartial :: "CSPConfig \<Rightarrow> PartialCSPConfig" where
  \<comment> \<open>a \<open>CSPConfig\<close> passed where a \<open>Partial<CSPConfig>\<close> is expected\<close>
  "asPartial c =
     \<lparr>p_directives = Some (directives c), p_useNonce = useNonce c,
      p_nonceLength = nonceLength c, p_reportOnly = reportOnly c\<rparr>"

definition noConfig :: PartialCSPConfig where
  "noConfig = \<lparr>p_directives = None, p_useNonce = None, p_nonceLength = None, p_reportOnly = None\<rparr>"

definition newCSPInjector :: "PartialCSPConfig option \<Rightarrow> EnvironmentVariables option \<Rightarrow> CSPInjector" where
  \<comment> \<open>the constructor; \<open>mergeConfigs\<close> is the expression of \<open>mergeConfigWithDefaults\<close>\<close>
  "newCSPInjector userConfig vars =
     \<lparr>config = mergeConfigWithDefaults DEFAULT_CONFIG (case userConfig of Some c \<Rightarrow> c | None \<Rightarrow> noConfig),
      envVars = (case vars of Some e \<Rightarrow> e | None \<Rightarrow> [])\<rparr>"

definition CSPInjector_loadEnvironmentVariables ::
  "node_lib \<Rightarrow> world \<Rightarrow> string \<Rightarrow> error + EnvironmentVariables" where
  \<comment> \<open>\<open>Object.assign(envVars, process.env)\<close>, then the framework variables that are not
      empty, \<open>'undefined'\<close> or \<open>'null'\<close>; \<open>Inl\<close>: the exception of the framework loader.
      \<open>Object.assign\<close> copies by assignment, and the assignment of a string to \<open>__proto__\<close>
      creates no property: a process variable of that name is not copied. The keys of the
      framework variables carry a prefix.\<close>
  "CSPInjector_loadEnvironmentVariables L w projectRoot =
     map_sum id
       (\<lambda>frameworkEnvVars.
          fold (\<lambda>(key, v) acc.
                  if v \<noteq> [] \<and> v \<noteq> ''undefined'' \<and> v \<noteq> ''null'' then AList.update key v acc
                  else acc)
            frameworkEnvVars
            (objAssign [] (filter (\<lambda>(key, v). key \<noteq> ''__proto__'') (penv w))))
       (loadEnvironmentVariables L w projectRoot None)"

definition CSPInjector_loadConfig ::
  "node_lib \<Rightarrow> world \<Rightarrow> string option \<Rightarrow> EnvironmentVariables option
   \<Rightarrow> error + string list \<times> CSPConfig" where
  "CSPInjector_loadConfig L w configPath vars =
     map_sum id (\<lambda>resolvedEnvVars. loadConfig L w injectorBaseConfigs configPath (Some resolvedEnvVars))
       (case vars of
          Some e \<Rightarrow> Inr e
        | None \<Rightarrow> CSPInjector_loadEnvironmentVariables L w (cwd w))"

definition joinWith :: "string \<Rightarrow> string list \<Rightarrow> string" where
  \<comment> \<open>\<open>xs.join(sep)\<close>\<close>
  "joinWith sep xs = (case xs of [] \<Rightarrow> [] | x # ys \<Rightarrow> x @ concat (map (\<lambda>y. sep @ y) ys))"

definition processCSPValue :: "CSPInjector \<Rightarrow> string \<Rightarrow> string option \<Rightarrow> string" where
  "processCSPValue self v nonce =
     (case nonce of
        Some n \<Rightarrow>
          if n \<noteq> [] \<and> v = [CHR 0x27] @ ''nonce-{{nonce}}'' @ [CHR 0x27]
          then [CHR 0x27] @ ''nonce-'' @ n @ [CHR 0x27]
          else resolveTemplateVariables v (envVars self)
      | None \<Rightarrow> resolveTemplateVariables v (envVars self))"

definition buildCSP :: "CSPInjector \<Rightarrow> string option \<Rightarrow> string" where
  "buildCSP self nonce =
     joinWith ''; ''
       (map (\<lambda>(directive, values).
               directive @ '' ''
               @ joinWith '' ''
                   (filter (\<lambda>v. v \<noteq> [] \<and> trim v \<noteq> [])
                      (map (\<lambda>v. processCSPValue self v nonce) values)))
          (directives (config self)))"

definition generateNonce :: "world \<Rightarrow> CSPInjector \<Rightarrow> error + string" where
  \<comment> \<open>\<open>crypto.randomBytes(n)\<close> throws for a negative size and for one above \<open>2^31 - 1\<close>\<close>
  "generateNonce w self =
     (let n = (case nonceLength (config self) of Some k \<Rightarrow> k | None \<Rightarrow> 16)
      in if n < 0 \<or> n > 2147483647 then Inl RangeError else Inr (randomBase64 w n))"

record CSPInjectionResult =
  htmlPath :: string
  nonce :: "string option"
  replacedTags_result :: nat
  cspString :: string
  envVars_result :: EnvironmentVariables

text \<open>
  The fields \<open>replacedTags\<close> and \<open>envVars\<close> of \<open>CSPInjectionResult\<close> carry the suffix
  \<open>_result\<close>, their names being taken by the fields of \<open>processed\<close> and \<open>CSPInjector\<close>.
\<close>

definition injectCSP ::
  "world \<Rightarrow> CSPInjector \<Rightarrow> string \<Rightarrow> string option \<Rightarrow> (error + CSPInjectionResult) \<times> world" where
  \<comment> \<open>every exception of the body is caught and thrown again as \<open>Failed to inject CSP\<close>\<close>
  "injectCSP w self target givenCsp =
     (case readFileSync w target of
        None \<Rightarrow> (Inl (InjectFailed (FsError target)), w)
      | Some html \<Rightarrow>
          (case (if useNonce (config self) = Some True then map_sum id Some (generateNonce w self)
                 else Inr None) of
             Inl e \<Rightarrow> (Inl (InjectFailed e), w)
           | Inr generated \<Rightarrow>
               (let csp = (case givenCsp of Some c \<Rightarrow> c | None \<Rightarrow> buildCSP self generated);
                    p = processHTMLContent html csp
                          (case reportOnly (config self) of Some b \<Rightarrow> b | None \<Rightarrow> False)
                in case writeFileSync w target (modifiedHtml p) of
                     None \<Rightarrow> (Inl (InjectFailed (FsError target)), w)
                   | Some w' \<Rightarrow>
                       (Inr \<lparr>htmlPath = target, nonce = generated, replacedTags_result = replacedTags p,
                             cspString = csp, envVars_result = envVars self\<rparr>, w'))))"

record InjectOptions =
  o_htmlPath :: "string option"
  o_configPath :: "string option"
  o_devMode :: "bool option"
  o_config :: "PartialCSPConfig option"
  o_envVars :: "EnvironmentVariables option"

definition truthy :: "string option \<Rightarrow> bool" where
  "truthy s = (case s of None \<Rightarrow> False | Some v \<Rightarrow> v \<noteq> [])"

definition resolveProjectPaths :: "node_lib \<Rightarrow> world \<Rightarrow> InjectOptions \<Rightarrow> error + (string \<times> string)" where
  \<comment> \<open>the project root and the path of the HTML file\<close>
  "resolveProjectPaths L w options =
     (let projectRoot =
            (if truthy (o_configPath options)
             then path_dirname L (path_resolve L (cwd w) (the (o_configPath options)))
             else cwd w);
          found =
            (if truthy (o_htmlPath options) then
               (let resolvedPath = path_resolve L (cwd w) (the (o_htmlPath options))
                in if \<not> existsSync w resolvedPath
                   then Inl (HtmlNotFound (''HTML file not found: '' @ resolvedPath))
                   else Inr resolvedPath)
             else (case detectHTML L w (case o_devMode options of Some b \<Rightarrow> b | None \<Rightarrow> False) of
                     Inl e \<Rightarrow> Inl e
                   | Inr None \<Rightarrow>
                       Inl (HtmlNotFound
                              (''HTML file not found. Please specify htmlPath or ensure ''
                               @ ''index.html exists in common locations.''))
                   | Inr (Some detectedHTML) \<Rightarrow> Inr (path detectedHTML)))
      in case found of
           Inl e \<Rightarrow> Inl e
         | Inr target \<Rightarrow>
             Inr (if \<not> truthy (o_configPath options)
                  then detectAngularWorkspaceRoot L w projectRoot target
                  else projectRoot,
                  target))"

definition setNodeEnv :: "string \<Rightarrow> world \<Rightarrow> world" where
  \<comment> \<open>\<open>process.env['NODE_ENV'] = value\<close>\<close>
  "setNodeEnv v w = w\<lparr>penv := AList.update ''NODE_ENV'' v (penv w)\<rparr>"

definition deleteNodeEnv :: "world \<Rightarrow> world" where
  \<comment> \<open>\<open>delete process.env['NODE_ENV']\<close>\<close>
  "deleteNodeEnv w = w\<lparr>penv := AList.delete ''NODE_ENV'' (penv w)\<rparr>"

definition setupEnvironmentForMode :: "bool option \<Rightarrow> world \<Rightarrow> bool \<times> world" where
  "setupEnvironmentForMode devMode w =
     (if getNodeEnv w = None \<or> getNodeEnv w = Some [] then
        (True, setNodeEnv (if devMode = Some True then ''development'' else ''production'') w)
      else if devMode = Some True \<and> getNodeEnv w = Some ''production'' then
        (True, setNodeEnv ''development'' w)
      else if devMode = Some False \<and> getNodeEnv w = Some ''development'' then
        (True, setNodeEnv ''production'' w)
      else (False, w))"

definition restoreEnvironment :: "bool \<Rightarrow> string option \<Rightarrow> world \<Rightarrow> world" where
  "restoreEnvironment shouldRestore originalNodeEnv w =
     (if shouldRestore then
        (case originalNodeEnv of Some v \<Rightarrow> setNodeEnv v w | None \<Rightarrow> deleteNodeEnv w)
      else w)"

definition injectionBody ::
  "node_lib \<Rightarrow> world \<Rightarrow> InjectOptions \<Rightarrow> string \<Rightarrow> string \<Rightarrow> (error + CSPInjectionResult) \<times> world" where
  \<comment> \<open>the statements of the \<open>try\<close> block of \<open>executeInjectionWithEnvironment\<close> after the call
      of \<open>setupEnvironmentForMode\<close>\<close>
  "injectionBody L w options projectRoot target =
     (case (case o_envVars options of
              Some e \<Rightarrow> Inr e
            | None \<Rightarrow> CSPInjector_loadEnvironmentVariables L w projectRoot) of
        Inl e \<Rightarrow> (Inl e, w)
      | Inr vars \<Rightarrow>
          (case (case o_config options of
                   Some c \<Rightarrow> Inr (mergeConfigWithDefaults DEFAULT_CONFIG c)
                 | None \<Rightarrow>
                     map_sum id snd (CSPInjector_loadConfig L w (o_configPath options) (Some vars))) of
             Inl e \<Rightarrow> (Inl e, w)
           | Inr cfg \<Rightarrow>
               (let injector = newCSPInjector (Some (asPartial cfg)) (Some vars)
                in injectCSP w injector target None)))"

definition executeInjectionWithEnvironment ::
  "node_lib \<Rightarrow> world \<Rightarrow> InjectOptions \<Rightarrow> string \<Rightarrow> string \<Rightarrow> (error + CSPInjectionResult) \<times> world" where
  \<comment> \<open>\<open>try { ... } finally { restoreEnvironment(...) }\<close>: the restoration runs after the body
      whether it returned or threw\<close>
  "executeInjectionWithEnvironment L w options projectRoot target =
     (let originalNodeEnv = getNodeEnv w;
          (shouldRestoreNodeEnv, w1) = setupEnvironmentForMode (o_devMode options) w;
          (outcome, w2) = injectionBody L w1 options projectRoot target
      in (outcome, restoreEnvironment shouldRestoreNodeEnv originalNodeEnv w2))"

definition inject :: "node_lib \<Rightarrow> world \<Rightarrow> InjectOptions \<Rightarrow> (error + CSPInjectionResult) \<times> world" where
  "inject L w options =
     (case resolveProjectPaths L w options of
        Inl e \<Rightarrow> (Inl e, w)
      | Inr (projectRoot, target) \<Rightarrow> executeInjectionWithEnvironment L w options projectRoot target)"

section \<open>A small Node library and worlds for the examples\<close>

text \<open>
  \<open>posix\<close> gives the \<open>path\<close> functions on the simple POSIX paths of the examples (no \<open>.\<close> or
  \<open>..\<close> segments, no repeated slashes), where they agree with Node's; its \<open>JSON.parse\<close>
  rejects every text. \<open>worldOf\<close> is a process in the directory \<open>/app\<close> with the given
  environment and files.
\<close>

definition dropTrailingSlash :: "string \<Rightarrow> string" where
  "dropTrailingSlash p = (if 2 \<le> length p \<and> last p = CHR ''/'' then butlast p else p)"

definition posix_join :: "string \<Rightarrow> string \<Rightarrow> string" where
  "posix_join a b = (if b = [] then a else if a = [] then b else dropTrailingSlash (a @ ''/'' @ b))"

definition posix_resolve :: "string \<Rightarrow> string \<Rightarrow> string" where
  "posix_resolve a b =
     (if b = [] then a else if startsWith b ''/'' then dropTrailingSlash b else dropTrailingSlash (a @ ''/'' @ b))"

definition posix_relative :: "string \<Rightarrow> string \<Rightarrow> string" where
  "posix_relative a b = (if startsWith b (a @ ''/'') then drop (length a + 1) b else b)"

definition posix_dirname :: "string \<Rightarrow> string" where
  "posix_dirname p =
     (if CHR ''/'' \<in> set p then rev (drop 1 (dropWhile (\<lambda>c. c \<noteq> CHR ''/'') (rev p))) else ''.'')"

definition posix :: node_lib where
  "posix =
     \<lparr>path_join = posix_join, path_resolve = posix_resolve, path_relative = posix_relative,
      path_dirname = posix_dirname, path_normalize = (\<lambda>p. p),
      path_isAbsolute = (\<lambda>p. startsWith p ''/''),
      json_workspace = (\<lambda>s. None), json_package = (\<lambda>s. None),
      json_build = (\<lambda>s. None), json_config = (\<lambda>s. None)\<rparr>"

definition worldOf :: "EnvironmentVariables \<Rightarrow> (string \<times> fs_node) list \<Rightarrow> world" where
  "worldOf e fs =
     \<lparr>cwd = ''/app'', penv = e, files = map_of fs, readonly = (\<lambda>p. False),
      randomBase64 = (\<lambda>n. replicate (nat n) CHR ''A'')\<rparr>"

definition plainHtml :: string where
  "plainHtml = ''<html><head><title>App</title></head><body></body></html>''"

definition nonceFlagParser :: "string \<Rightarrow> parsed_config option" where
  \<comment> \<open>\<open>JSON.parse\<close> on the two texts of the example of the configuration loader: the text
      with the flag is an object, every other text is rejected\<close>
  "nonceFlagParser s =
     (if s = ''{\"useNonce\": true}'' then Some (Parsed (noConfig\<lparr>p_useNonce := Some True\<rparr>))
      else None)"

section \<open>Angular environment files as written\<close>

text \<open>
  The texts of environment files for which the scan of \<open>parseAngularEnvFile\<close> is described
  below. A property is written as separators (white space and commas), a name of word
  characters, a colon, white space and a value; the value is a string between two equal
  quotes that holds neither a quote nor a closing brace, or a bare literal of characters
  other than comma, white space and closing brace that does not start with a quote.
  After a bare literal the next property starts with at least one separator.
  \<open>writeEnvironment\<close> is the file: a text, the declaration, the properties, separators, the
  closing brace and a text.
\<close>

definition isSeparatorChar :: "char \<Rightarrow> bool" where
  "isSeparatorChar c = (isSpaceChar c \<or> c = CHR '','')"

datatype written_value = Quoted char string | Bare string

datatype written_property = Property string string string written_value

text \<open>
  The arguments of \<open>Property\<close> are the separators before the name, the name, the white
  space after the colon and the value.
\<close>

fun writeValue :: "written_value \<Rightarrow> string" where
  "writeValue (Quoted q v) = q # v @ [q]"
| "writeValue (Bare b) = b"

fun valueText :: "written_value \<Rightarrow> string" where
  "valueText (Quoted q v) = v"
| "valueText (Bare b) = b"

fun writeProperty :: "written_property \<Rightarrow> string" where
  "writeProperty (Property lead key gap v) = lead @ key @ '':'' @ gap @ writeValue v"

fun propertyKey :: "written_property \<Rightarrow> string" where
  "propertyKey (Property lead key gap v) = key"

fun propertyText :: "written_property \<Rightarrow> string" where
  "propertyText (Property lead key gap v) = valueText v"

fun wellWrittenValue :: "written_value \<Rightarrow> bool" where
  "wellWrittenValue (Quoted q v) =
     (isQuoteChar q \<and> list_all (\<lambda>c. \<not> isQuoteChar c \<and> c \<noteq> CHR ''}'') v)"
| "wellWrittenValue (Bare b) = (b \<noteq> [] \<and> list_all isBareChar b \<and> \<not> isQuoteChar (hd b))"

fun wellWrittenProperty :: "written_property \<Rightarrow> bool" where
  "wellWrittenProperty (Property lead key gap v) =
     (list_all isSeparatorChar lead \<and> key \<noteq> [] \<and> list_all isWordChar key
      \<and> list_all isSpaceChar gap \<and> wellWrittenValue v)"

fun separated :: "written_property \<Rightarrow> written_property \<Rightarrow> bool" where
  "separated (Property lead key gap (Bare b)) (Property lead' key' gap' v') = (lead' \<noteq> [])"
| "separated (Property lead key gap (Quoted q v)) p' = True"

fun wellWritten :: "written_property list \<Rightarrow> bool" where
  "wellWritten [] = True"
| "wellWritten [p] = wellWrittenProperty p"
| "wellWritten (p # p' # ps) = (wellWrittenProperty p \<and> separated p p' \<and> wellWritten (p' # ps))"

definition occursIn :: "string \<Rightarrow> string \<Rightarrow> bool" where
  \<comment> \<open>\<open>s.includes(p)\<close>\<close>
  "occursIn p s = list_ex (\<lambda>i. startsWith (drop i s) p) [0..<Suc (length s)]"

definition writeEnvironment ::
  "string \<Rightarrow> written_property list \<Rightarrow> string \<Rightarrow> string \<Rightarrow> string" where
  "writeEnvironment preceding props trail following =
     preceding @ ''export const environment = {'' @ concat (map writeProperty props) @ trail
     @ ''}'' @ following"

fun propertyGroups :: "written_property \<Rightarrow> string \<times> string option \<times> string option" where
  \<comment> \<open>the capture groups of \<open>propertyRegex\<close> for a written property\<close>
  "propertyGroups (Property lead key gap (Quoted q v)) = (key, Some v, None)"
| "propertyGroups (Property lead key gap (Bare b)) = (key, None, Some b)"

section \<open>Association lists\<close>

lemma set_update_subset: "set (AList.update k v al) \<subseteq> insert (k, v) (set al)"
  by (induction al) auto

section \<open>Properties of the template resolvers\<close>

lemma isWordChar_brace [simp]: "\<not> isWordChar CHR ''{''" "\<not> isWordChar CHR ''}''"
  by (simp_all add: isWordChar_def)

lemma TV_Some:
  assumes "TEMPLATE_VARIABLE s = Some r"
  shows "s = whole r @ rest r" "whole r = placeholder (groups r)" "groups r \<noteq> []"
    "\<forall>c\<in>set (groups r). isWordChar c" "length (rest r) < length s"
proof -
  let ?n = "takeWhile isWordChar (drop 2 s)" and ?a = "dropWhile isWordChar (drop 2 s)"
  from assms have t: "take 2 s = ''{{''" and n: "?n \<noteq> []" and a: "take 2 ?a = ''}}''"
    and r: "r = \<lparr>whole = ''{{'' @ ?n @ ''}}'', groups = ?n, rest = drop 2 ?a\<rparr>"
    by (auto simp: TEMPLATE_VARIABLE_def Let_def split: if_splits)
  have "s = take 2 s @ drop 2 s" by simp
  also have "drop 2 s = ?n @ ?a" by simp
  also have "?a = take 2 ?a @ drop 2 ?a" by simp
  finally have "s = ''{{'' @ ?n @ ''}}'' @ drop 2 ?a" using t a by simp
  with r show "s = whole r @ rest r" by simp
  from r show "whole r = placeholder (groups r)" by (simp add: placeholder_def)
  from r n show "groups r \<noteq> []" by simp
  from r show "\<forall>c\<in>set (groups r). isWordChar c" by (auto dest: set_takeWhileD)
  have "length s = length (whole r @ rest r)" using \<open>s = whole r @ rest r\<close> by simp
  moreover have "length (whole r) > 0" using r by simp
  ultimately show "length (rest r) < length s" by simp
qed

lemma TV_placeholder:
  assumes "name \<noteq> []" "\<forall>c\<in>set name. isWordChar c"
  shows "TEMPLATE_VARIABLE (placeholder name @ post)
         = Some \<lparr>whole = placeholder name, groups = name, rest = post\<rparr>"
proof -
  have tw: "takeWhile isWordChar (name @ ''}}'' @ post) = name"
    using assms(2) by (simp add: takeWhile_append2)
  have dw: "dropWhile isWordChar (name @ ''}}'' @ post) = ''}}'' @ post"
    using assms(2) by (simp add: dropWhile_append2)
  show ?thesis
    using assms(1) tw dw by (simp add: TEMPLATE_VARIABLE_def placeholder_def Let_def)
qed

lemma TV_append:
  assumes "p \<noteq> []" "take 2 s = ''{{''"
  shows "TEMPLATE_VARIABLE (p @ s) = map_option (\<lambda>r. r\<lparr>rest := rest r @ s\<rparr>) (TEMPLATE_VARIABLE p)"
proof -
  obtain t where s: "s = CHR ''{'' # CHR ''{'' # t"
    using assms(2) by (cases s; cases "tl s") auto
  consider (two) q where "p = CHR ''{'' # CHR ''{'' # q" | (one) "p = ''{''" | (other) "take 2 (p @ s) \<noteq> ''{{''" "take 2 p \<noteq> ''{{''"
    using assms(1) by (cases p; cases "tl p") auto
  then show ?thesis
  proof cases
    case two
    have tw: "takeWhile isWordChar (q @ s) = takeWhile isWordChar q"
      by (induction q) (auto simp: s)
    have dw: "dropWhile isWordChar (q @ s) = dropWhile isWordChar q @ s"
      by (induction q) (auto simp: s)
    have tk: "take 2 (d @ s) = ''}}'' \<longleftrightarrow> take 2 d = ''}}''" for d
      by (cases d; cases "tl d") (auto simp: s)
    have dr: "take 2 d = ''}}'' \<Longrightarrow> drop 2 (d @ s) = drop 2 d @ s" for d
      by (cases d; cases "tl d") auto
    show ?thesis
      by (simp add: TEMPLATE_VARIABLE_def two tw dw tk dr Let_def del: take_append drop_append)
  next
    case one
    then show ?thesis by (simp add: TEMPLATE_VARIABLE_def s)
  next
    case other
    then show ?thesis by (simp add: TEMPLATE_VARIABLE_def)
  qed
qed

lemma TV_Nil: "TEMPLATE_VARIABLE [] = None"
  by (simp add: TEMPLATE_VARIABLE_def)

lemma replaceGlobal_TV_Nil: "replaceGlobal TEMPLATE_VARIABLE f [] = []"
  by (subst replaceGlobal.simps) (simp add: TEMPLATE_VARIABLE_def)

lemma replaceGlobal_TV_None:
  "TEMPLATE_VARIABLE (c # cs) = None \<Longrightarrow>
   replaceGlobal TEMPLATE_VARIABLE f (c # cs) = c # replaceGlobal TEMPLATE_VARIABLE f cs"
  by (subst replaceGlobal.simps) simp

lemma replaceGlobal_TV_Some:
  "TEMPLATE_VARIABLE s = Some r \<Longrightarrow>
   replaceGlobal TEMPLATE_VARIABLE f s = f r @ replaceGlobal TEMPLATE_VARIABLE f (rest r)"
  by (subst replaceGlobal.simps) (simp add: TV_Some(5))

lemma matchAll_TV_Nil: "matchAll TEMPLATE_VARIABLE [] = []"
  by (subst matchAll.simps) (simp add: TEMPLATE_VARIABLE_def)

lemma matchAll_TV_None:
  "TEMPLATE_VARIABLE (c # cs) = None \<Longrightarrow>
   matchAll TEMPLATE_VARIABLE (c # cs) = matchAll TEMPLATE_VARIABLE cs"
  by (subst matchAll.simps) simp

lemma matchAll_TV_Some:
  "TEMPLATE_VARIABLE s = Some r \<Longrightarrow>
   matchAll TEMPLATE_VARIABLE s = r # matchAll TEMPLATE_VARIABLE (rest r)"
  by (subst matchAll.simps) (simp add: TV_Some(5))

lemma replaceGlobal_TV_append:
  assumes f: "\<And>r x. f (r\<lparr>rest := x\<rparr>) = f r" and s: "take 2 s = ''{{''"
  shows "replaceGlobal TEMPLATE_VARIABLE f (p @ s)
         = replaceGlobal TEMPLATE_VARIABLE f p @ replaceGlobal TEMPLATE_VARIABLE f s"
proof (induction p rule: length_induct)
  case (1 p)
  show ?case
  proof (cases p)
    case Nil
    then show ?thesis by (simp add: replaceGlobal_TV_Nil)
  next
    case (Cons c cs)
    then have ne: "p \<noteq> []" by simp
    show ?thesis
    proof (cases "TEMPLATE_VARIABLE p")
      case None
      then have n: "TEMPLATE_VARIABLE (c # (cs @ s)) = None" using TV_append[OF ne s] Cons by simp
      have "replaceGlobal TEMPLATE_VARIABLE f (cs @ s)
         = replaceGlobal TEMPLATE_VARIABLE f cs @ replaceGlobal TEMPLATE_VARIABLE f s"
        using 1 Cons by simp
      then show ?thesis using None Cons
        by (simp add: replaceGlobal_TV_None[OF n] replaceGlobal_TV_None)
    next
      case (Some r)
      then have a: "TEMPLATE_VARIABLE (p @ s) = Some (r\<lparr>rest := rest r @ s\<rparr>)"
        using TV_append[OF ne s] by simp
      have "length (rest r) < length p" using Some by (rule TV_Some(5))
      then have "replaceGlobal TEMPLATE_VARIABLE f (rest r @ s)
         = replaceGlobal TEMPLATE_VARIABLE f (rest r) @ replaceGlobal TEMPLATE_VARIABLE f s"
        using 1 by simp
      then show ?thesis
        by (simp add: replaceGlobal_TV_Some[OF a] replaceGlobal_TV_Some[OF Some] f)
    qed
  qed
qed

lemma replaceGlobal_TV_placeholder:
  assumes "\<And>r x. f (r\<lparr>rest := x\<rparr>) = f r" "name \<noteq> []" "\<forall>c\<in>set name. isWordChar c"
  shows "replaceGlobal TEMPLATE_VARIABLE f (pre @ placeholder name @ post)
         = replaceGlobal TEMPLATE_VARIABLE f pre
           @ f \<lparr>whole = placeholder name, groups = name, rest = []\<rparr>
           @ replaceGlobal TEMPLATE_VARIABLE f post"
proof -
  have t: "take 2 (placeholder name @ post) = ''{{''" by (simp add: placeholder_def)
  have "f (\<lparr>whole = placeholder name, groups = name, rest = post\<rparr>\<lparr>rest := []\<rparr>)
        = f \<lparr>whole = placeholder name, groups = name, rest = post\<rparr>"
    by (rule assms(1))
  then have e: "f \<lparr>whole = placeholder name, groups = name, rest = post\<rparr>
        = f \<lparr>whole = placeholder name, groups = name, rest = []\<rparr>" by simp
  show ?thesis
    by (simp add: replaceGlobal_TV_append[OF assms(1) t]
        replaceGlobal_TV_Some[OF TV_placeholder[OF assms(2,3)]] e)
qed

lemma replaceGlobal_TV_id:
  assumes "\<forall>r\<in>set (matchAll TEMPLATE_VARIABLE s). f r = whole r"
  shows "replaceGlobal TEMPLATE_VARIABLE f s = s"
  using assms
proof (induction s rule: length_induct)
  case (1 s)
  show ?case
  proof (cases "TEMPLATE_VARIABLE s")
    case None
    show ?thesis
    proof (cases s)
      case Nil
      then show ?thesis by (simp add: replaceGlobal_TV_Nil)
    next
      case (Cons c cs)
      with None have n: "TEMPLATE_VARIABLE (c # cs) = None" by simp
      have "replaceGlobal TEMPLATE_VARIABLE f cs = cs"
        using 1 Cons by (simp add: matchAll_TV_None[OF n])
      then show ?thesis using Cons by (simp add: replaceGlobal_TV_None[OF n])
    qed
  next
    case (Some r)
    have l: "length (rest r) < length s" and w: "s = whole r @ rest r"
      using Some by (rule TV_Some(5), rule TV_Some(1))
    have "f r = whole r" using 1(2) by (simp add: matchAll_TV_Some[OF Some])
    moreover have "replaceGlobal TEMPLATE_VARIABLE f (rest r) = rest r"
      using 1 l by (simp add: matchAll_TV_Some[OF Some])
    ultimately have "replaceGlobal TEMPLATE_VARIABLE f s = whole r @ rest r"
      by (simp add: replaceGlobal_TV_Some[OF Some])
    then show ?thesis using w by simp
  qed
qed

lemma execFirst_TV_iff:
  "execFirst TEMPLATE_VARIABLE s = None \<longleftrightarrow> matchAll TEMPLATE_VARIABLE s = []"
proof (induction s)
  case Nil
  then show ?case by (simp add: matchAll_TV_Nil TV_Nil)
next
  case (Cons c cs)
  show ?case
  proof (cases "TEMPLATE_VARIABLE (c # cs)")
    case None
    then show ?thesis using Cons by (simp add: matchAll_TV_None[OF None])
  next
    case (Some r)
    then show ?thesis using matchAll_TV_Some[OF Some] by simp
  qed
qed

lemma environment_resolve_eq:
  "environment_resolveTemplateVariables template vars =
     replaceGlobal TEMPLATE_VARIABLE
        (\<lambda>r. if groups r = [] then whole r
             else (case getProperty vars (groups r) of
                     Some v \<Rightarrow> v
                   | None \<Rightarrow> (case getProperty vars (''NG_'' @ groups r) of
                                Some v \<Rightarrow> v
                              | None \<Rightarrow> whole r)))
        template"
proof (cases "testRegex TEMPLATE_VARIABLE template")
  case True
  then show ?thesis by (simp add: environment_resolveTemplateVariables_def)
next
  case False
  then have "matchAll TEMPLATE_VARIABLE template = []"
    by (simp add: testRegex_def execFirst_TV_iff)
  then show ?thesis using False
    by (simp add: environment_resolveTemplateVariables_def replaceGlobal_TV_id)
qed


lemma getProperty_own:
  "map_of OBJECT_PROTOTYPE key = None \<Longrightarrow> getProperty vars key = map_of vars key"
  by (simp add: getProperty_def split: option.splits)

lemma getProperty_NG:
  "getProperty vars (CHR ''N'' # CHR ''G'' # CHR ''_'' # name)
   = map_of vars (CHR ''N'' # CHR ''G'' # CHR ''_'' # name)"
  by (rule getProperty_own) (simp add: OBJECT_PROTOTYPE_def)

section \<open>The count of replaced tags\<close>

text \<open>
  Claim C1: the code does not do what the claim says. The document \<open>plainHtml\<close> holds no
  CSP meta tag, for the expression that removes the tags and for the one that detects
  them; after \<open>injectCSP\<close> the file holds exactly one CSP meta tag, as the claim says, but
  the result reports one replaced tag where the claim, and the documentation of the
  field, say zero: \<open>processHTMLContent\<close> returns the constant 1.
\<close>

theorem injectCSP_no_existing_tag_reports_one:
  "matchAll CSP_TAG plainHtml = []
   \<and> testRegex CSP_DETECTION plainHtml = False
   \<and> map_sum id replacedTags_result
        (fst (injectCSP (worldOf [] [(''/app/index.html'', File plainHtml)])
                (newCSPInjector None None) ''/app/index.html'' None))
      = Inr 1
   \<and> map_option (\<lambda>f. case f of File html \<Rightarrow> length (matchAll CSP_TAG html) | _ \<Rightarrow> 0)
        (files (snd (injectCSP (worldOf [] [(''/app/index.html'', File plainHtml)])
                       (newCSPInjector None None) ''/app/index.html'' None))
           ''/app/index.html'')
      = Some 1"
  by code_simp

section \<open>Locating the HTML file\<close>

text \<open>
  Claim C2, as stated, fails: in a working directory whose only candidate is
  \<open>public/index.html\<close>, \<open>detectHTML(false)\<close> returns that file. The production search list
  ends with \<open>public/index.html\<close> and \<open>index.html\<close>.
\<close>

theorem detectHTML_public_only_counterexample:
  "detectHTML posix
     (worldOf [] [(''/app/public'', Directory [''index.html'']),
                  (''/app/public/index.html'', File plainHtml)])
     False
   = Inr (Some \<lparr>path = ''/app/public/index.html'', buildDir = ''public'', hasExistingCSP = False\<rparr>)"
  by code_simp

text \<open>
  Claim C2, amended. For every working directory without \<open>angular.json\<close>, without a
  \<open>dist\<close> directory and without \<open>dist/index.html\<close>, \<open>build/index.html\<close> and \<open>www/index.html\<close>, in
  which \<open>public/index.html\<close> is a file, \<open>detectHTML\<close> with \<open>devMode = false\<close> returns the
  detection result of \<open>public/index.html\<close>, and not \<open>null\<close>.
\<close>

theorem detectHTML_production_public_fallback:
  assumes "\<not> existsSync w (path_resolve L (cwd w) ''angular.json'')"
    and "\<not> existsSync w (path_resolve L (cwd w) ''dist/'')"
    and "\<not> existsSync w (path_resolve L (cwd w) ''dist/index.html'')"
    and "\<not> existsSync w (path_resolve L (cwd w) ''build/index.html'')"
    and "\<not> existsSync w (path_resolve L (cwd w) ''www/index.html'')"
    and "files w (path_resolve L (cwd w) ''public/index.html'') = Some (File content)"
  shows "detectHTML L w False
         = Inr (Some \<lparr>path = path_resolve L (cwd w) ''public/index.html'',
                       buildDir = path_dirname L ''public/index.html'',
                       hasExistingCSP = testRegex CSP_DETECTION content\<rparr>)"
proof -
  have paths: "getHTMLSearchPaths L w False = Inr (''dist/*/index.html'' # HTML_SEARCH_PATHS_PROD)"
    using assms(1) by (simp add: getHTMLSearchPaths_def getAngularBuildPaths_def)
  have glob: "findHTMLFile L w ''dist/*/index.html'' = Inr None"
    using assms(2) by (simp add: findHTMLFile_def searchGlobPattern_def)
  have dist: "findHTMLFile L w ''dist/index.html'' = Inr None"
    using assms(3) by (simp add: findHTMLFile_def)
  have build: "findHTMLFile L w ''build/index.html'' = Inr None"
    using assms(4) by (simp add: findHTMLFile_def)
  have www: "findHTMLFile L w ''www/index.html'' = Inr None"
    using assms(5) by (simp add: findHTMLFile_def)
  have pub: "findHTMLFile L w ''public/index.html''
             = Inr (Some \<lparr>path = path_resolve L (cwd w) ''public/index.html'',
                           buildDir = path_dirname L ''public/index.html'',
                           hasExistingCSP = testRegex CSP_DETECTION content\<rparr>)"
    using assms(6)
    by (simp add: findHTMLFile_def createHTMLDetectionResult_def existsSync_def readFileSync_def)
  show ?thesis
    by (simp add: detectHTML_def paths HTML_SEARCH_PATHS_PROD_def glob dist build www pub)
qed

theorem detectHTML_production_public_fallback_witness:
  "files (worldOf [] [(''/app/public'', Directory [''index.html'']),
                      (''/app/public/index.html'', File plainHtml)]) ''/app/public/index.html''
     = Some (File plainHtml)
   \<and> detectHTML posix
     (worldOf [] [(''/app/public'', Directory [''index.html'']),
                  (''/app/public/index.html'', File plainHtml)])
     False
   = Inr (Some \<lparr>path = ''/app/public/index.html'', buildDir = ''public'',
                  hasExistingCSP = testRegex CSP_DETECTION plainHtml\<rparr>)"
proof -
  let ?w = "worldOf [] [(''/app/public'', Directory [''index.html'']),
                        (''/app/public/index.html'', File plainHtml)]"
  have r: "path_resolve posix (cwd ?w) ''angular.json'' = ''/app/angular.json''"
    "path_resolve posix (cwd ?w) ''dist/'' = ''/app/dist''"
    "path_resolve posix (cwd ?w) ''dist/index.html'' = ''/app/dist/index.html''"
    "path_resolve posix (cwd ?w) ''build/index.html'' = ''/app/build/index.html''"
    "path_resolve posix (cwd ?w) ''www/index.html'' = ''/app/www/index.html''"
    "path_resolve posix (cwd ?w) ''public/index.html'' = ''/app/public/index.html''"
    "path_dirname posix ''public/index.html'' = ''public''"
    by (simp_all add: posix_def posix_resolve_def posix_dirname_def worldOf_def startsWith_def
        dropTrailingSlash_def)
  show ?thesis
    using detectHTML_production_public_fallback[of ?w posix plainHtml]
    by (simp add: r) (simp add: worldOf_def existsSync_def)
qed

section \<open>The configuration loader\<close>

lemma existsSync_penv [simp]: "existsSync (w\<lparr>penv := e\<rparr>) p = existsSync w p"
  by (simp add: existsSync_def)

lemma readFileSync_penv [simp]: "readFileSync (w\<lparr>penv := e\<rparr>) p = readFileSync w p"
  by (simp add: readFileSync_def)

lemma tryReadSpecifiedConfig_penv [simp]:
  "tryReadSpecifiedConfig (w\<lparr>penv := e\<rparr>) p = tryReadSpecifiedConfig w p"
  by (cases p) (simp_all add: tryReadSpecifiedConfig_def)

lemma tryReadDefaultConfig_penv [simp]:
  "tryReadDefaultConfig L (w\<lparr>penv := e\<rparr>) = tryReadDefaultConfig L w"
  by (simp add: tryReadDefaultConfig_def Let_def split: option.splits)

lemma readConfigFile_penv [simp]: "readConfigFile L (w\<lparr>penv := e\<rparr>) p = readConfigFile L w p"
  by (simp add: readConfigFile_def split: prod.splits option.splits)

lemma loadConfigFromFile_penv [simp]:
  "loadConfigFromFile L (w\<lparr>penv := e\<rparr>) B V p = loadConfigFromFile L w B V p"
  by (simp add: loadConfigFromFile_def)

text \<open>
  Claim C3, as stated, fails: the base that \<open>loadConfig\<close> selects follows the \<open>NODE_ENV\<close>
  entry of its \<open>envVars\<close> argument. In one and the same process, whose \<open>NODE_ENV\<close> is unset,
  the argument with \<open>NODE_ENV = 'production'\<close> selects the production base and the empty
  argument the development base.
\<close>

theorem loadConfig_base_follows_envVars_counterexample:
  "snd (loadConfig posix (worldOf [] []) injectorBaseConfigs None (Some [(''NODE_ENV'', ''production'')]))
     = PRODUCTION_CONFIG
   \<and> snd (loadConfig posix (worldOf [] []) injectorBaseConfigs None (Some [])) = DEFAULT_CONFIG
   \<and> useNonce PRODUCTION_CONFIG \<noteq> useNonce DEFAULT_CONFIG"
proof -
  have 1: "snd (loadConfig posix (worldOf [] []) injectorBaseConfigs None
                  (Some [(''NODE_ENV'', ''production'')])) = PRODUCTION_CONFIG"
    by (simp add: loadConfig_def loadConfigFromFile_def readConfigFile_def tryReadSpecifiedConfig_def
        tryReadDefaultConfig_def existsSync_def worldOf_def posix_def defaultsFor_def
        createEnhancedDefaultConfig_def getFrameworkEnvironmentVariables_def startsWith_def
        getDefaultConfigForEnvironment_def injectorBaseConfigs_def)
  have 2: "snd (loadConfig posix (worldOf [] []) injectorBaseConfigs None (Some [])) = DEFAULT_CONFIG"
    by (simp add: loadConfig_def loadConfigFromFile_def readConfigFile_def tryReadSpecifiedConfig_def
        tryReadDefaultConfig_def existsSync_def worldOf_def posix_def defaultsFor_def
        createEnhancedDefaultConfig_def getFrameworkEnvironmentVariables_def
        getDefaultConfigForEnvironment_def injectorBaseConfigs_def)
  have 3: "useNonce PRODUCTION_CONFIG \<noteq> useNonce DEFAULT_CONFIG"
    by (simp add: PRODUCTION_CONFIG_def DEFAULT_CONFIG_def)
  from 1 2 3 show ?thesis by blast
qed

text \<open>
  Claim C3, amended. The choice of \<open>loadConfig\<close> between the development and the
  production base depends only on the \<open>NODE_ENV\<close> entry of its \<open>envVars\<close> argument: the base
  is the production base exactly when that entry is \<open>'production'\<close>, and the development
  base otherwise. The configuration returned is the parsed configuration file merged
  over that base (step 1), or else that base with the placeholders of the framework
  variables appended (step 2), or else that base itself (step 3); the other base is not
  used. The process environment has no part in it: changing it changes nothing.
\<close>

theorem loadConfig_base_from_envVars:
  "loadConfig L (w\<lparr>penv := e\<rparr>) B p V = loadConfig L w B p V
   \<and> snd (loadConfig L w B p V)
     = (let vars = (case V of Some vs \<Rightarrow> vs | None \<Rightarrow> []);
            base = (if map_of vars ''NODE_ENV'' = Some ''production'' then PRODUCTION B else DEFAULT B);
            frameworkVars = getFrameworkEnvironmentVariables vars;
            fromFile =
              (case snd (readConfigFile L w p) of
                 None \<Rightarrow> None
               | Some (content, filePath) \<Rightarrow>
                   if content = [] \<or> filePath = [] then None
                   else (case safeJsonParse L (resolveTemplateVariables content vars) of
                           Some (Parsed userConfig) \<Rightarrow> Some userConfig
                         | _ \<Rightarrow> None))
        in case fromFile of
             Some userConfig \<Rightarrow> mergeConfigWithDefaults base userConfig
           | None \<Rightarrow>
               if frameworkVars = [] then base else enhanceConfigWithVariables base frameworkVars)"
proof (rule conjI)
  show "loadConfig L (w\<lparr>penv := e\<rparr>) B p V = loadConfig L w B p V"
    by (simp add: loadConfig_def)
next
  obtain warnings found where r: "readConfigFile L w p = (warnings, found)"
    by (cases "readConfigFile L w p")
  show "snd (loadConfig L w B p V)
     = (let vars = (case V of Some vs \<Rightarrow> vs | None \<Rightarrow> []);
            base = (if map_of vars ''NODE_ENV'' = Some ''production'' then PRODUCTION B else DEFAULT B);
            frameworkVars = getFrameworkEnvironmentVariables vars;
            fromFile =
              (case snd (readConfigFile L w p) of
                 None \<Rightarrow> None
               | Some (content, filePath) \<Rightarrow>
                   if content = [] \<or> filePath = [] then None
                   else (case safeJsonParse L (resolveTemplateVariables content vars) of
                           Some (Parsed userConfig) \<Rightarrow> Some userConfig
                         | _ \<Rightarrow> None))
        in case fromFile of
             Some userConfig \<Rightarrow> mergeConfigWithDefaults base userConfig
           | None \<Rightarrow>
               if frameworkVars = [] then base else enhanceConfigWithVariables base frameworkVars)"
    by (simp add: loadConfig_def loadConfigFromFile_def r defaultsFor_def
        createEnhancedDefaultConfig_def getDefaultConfigForEnvironment_def Let_def
        split: option.splits parsed_config.splits prod.splits)
qed

section \<open>The mode signal\<close>

lemma penv_writeFileSync: "writeFileSync w p c = Some w' \<Longrightarrow> penv w' = penv w"
  by (auto simp: writeFileSync_def split: option.splits fs_node.splits if_splits)

lemma penv_injectCSP: "penv (snd (injectCSP w self target givenCsp)) = penv w"
  by (auto simp: injectCSP_def Let_def dest: penv_writeFileSync split: option.splits sum.splits)

lemma penv_injectionBody: "penv (snd (injectionBody L w options projectRoot target)) = penv w"
  by (simp add: injectionBody_def Let_def penv_injectCSP split: sum.splits)

lemma restore_after_setup:
  assumes "setupEnvironmentForMode devMode w = (shouldRestore, w1)" and "penv w2 = penv w1"
  shows "penv (restoreEnvironment shouldRestore (getNodeEnv w) w2) = penv w"
proof (cases "getNodeEnv w")
  case None
  then have notin: "''NODE_ENV'' \<notin> fst ` set (penv w)"
    by (simp add: getNodeEnv_def map_of_eq_None_iff)
  from None assms(1) have s: "shouldRestore" and w1: "penv w1 = AList.update ''NODE_ENV''
      (if devMode = Some True then ''development'' else ''production'') (penv w)"
    by (auto simp: setupEnvironmentForMode_def setNodeEnv_def)
  show ?thesis
    using s None notin by (simp add: restoreEnvironment_def deleteNodeEnv_def assms(2) w1 delete_update_same)
next
  case (Some v)
  then have m: "map_of (penv w) ''NODE_ENV'' = Some v" by (simp add: getNodeEnv_def)
  show ?thesis
  proof (cases shouldRestore)
    case True
    then obtain v' where "penv w1 = AList.update ''NODE_ENV'' v' (penv w)"
      using assms(1) by (auto simp: setupEnvironmentForMode_def setNodeEnv_def split: if_splits)
    then show ?thesis
      using True Some m by (simp add: restoreEnvironment_def setNodeEnv_def assms(2) update_triv)
  next
    case False
    then have "w1 = w"
      using assms(1) by (auto simp: setupEnvironmentForMode_def split: if_splits)
    then show ?thesis using False by (simp add: restoreEnvironment_def assms(2))
  qed
qed

text \<open>
  Claim C4. For every options bag and every prior state of the mode signal (\<open>NODE_ENV\<close> set
  to any value, or unset), after \<open>CSPInjector.inject\<close> has completed, with a result or with
  a thrown error, the process environment is the one before the call: \<open>NODE_ENV\<close> has its
  prior value, and is unset when it was unset.
\<close>

theorem inject_restores_NODE_ENV:
  "getNodeEnv (snd (inject L w options)) = getNodeEnv w
   \<and> penv (snd (inject L w options)) = penv w"
proof -
  have "penv (snd (inject L w options)) = penv w"
  proof (cases "resolveProjectPaths L w options")
    case (Inl e)
    then show ?thesis by (simp add: inject_def)
  next
    case (Inr found)
    obtain projectRoot target where found: "found = (projectRoot, target)" by (cases found)
    obtain shouldRestore w1 where s: "setupEnvironmentForMode (o_devMode options) w = (shouldRestore, w1)"
      by (cases "setupEnvironmentForMode (o_devMode options) w")
    obtain outcome w2 where b: "injectionBody L w1 options projectRoot target = (outcome, w2)"
      by (cases "injectionBody L w1 options projectRoot target")
    have "penv w2 = penv w1" using penv_injectionBody[of L w1 options projectRoot target] b by simp
    then have "penv (restoreEnvironment shouldRestore (getNodeEnv w) w2) = penv w"
      using s by (rule restore_after_setup[rotated])
    then show ?thesis
      using Inr found s b by (simp add: inject_def executeInjectionWithEnvironment_def)
  qed
  then show ?thesis by (simp add: getNodeEnv_def)
qed

section \<open>Precedence of the \<open>.env\<close> files\<close>

lemma upd_add_assoc: "(m(k \<mapsto> v)) ++ n = m ++ ([k \<mapsto> v] ++ n)"
  by (rule ext) (simp add: map_add_def split: option.splits)

lemma map_of_objAssign: "map_of (objAssign a b) = map_of a ++ map_of (objAssign [] b)"
proof (induction b arbitrary: a)
  case Nil
  then show ?case by (simp add: objAssign_def)
next
  case (Cons x b)
  obtain k v where x: "x = (k, v)" by (cases x)
  have 3: "objAssign c (x # b) = objAssign (AList.update k v c) b" for c
    by (simp add: objAssign_def x)
  have "map_of (objAssign a (x # b)) = map_of (AList.update k v a) ++ map_of (objAssign [] b)"
    unfolding 3 by (rule Cons.IH)
  then have 1: "map_of (objAssign a (x # b)) = (map_of a)(k \<mapsto> v) ++ map_of (objAssign [] b)"
    by (simp only: update_conv')
  have "map_of (objAssign [] (x # b)) = map_of (AList.update k v []) ++ map_of (objAssign [] b)"
    unfolding 3 by (rule Cons.IH)
  then have 2: "map_of (objAssign [] (x # b)) = [k \<mapsto> v] ++ map_of (objAssign [] b)"
    by (simp only: update_conv' map_of.simps)
  show ?case unfolding 1 2 by (rule upd_add_assoc)
qed

lemma map_of_loadEnvFile:
  "map_of (loadEnvFile L w r f acc) = map_of acc ++ fileDefines L w r f"
proof (cases "existsSync w (path_join L r f)")
  case True
  let ?A = "parseEnvFile w (path_join L r f) REACT" and ?B = "parseEnvFile w (path_join L r f) VITE"
  have "map_of (objAssign (objAssign acc ?A) ?B)
        = (map_of acc ++ map_of (objAssign [] ?A)) ++ map_of (objAssign [] ?B)"
    by (simp only: map_of_objAssign[of "objAssign acc ?A" ?B] map_of_objAssign[of acc ?A])
  moreover have "map_of (objAssign (objAssign [] ?A) ?B)
        = map_of (objAssign [] ?A) ++ map_of (objAssign [] ?B)"
    by (simp only: map_of_objAssign[of "objAssign [] ?A" ?B])
  ultimately have "map_of (objAssign (objAssign acc ?A) ?B)
        = map_of acc ++ map_of (objAssign (objAssign [] ?A) ?B)"
    by (simp only: map_add_assoc)
  then show ?thesis using True by (simp only: loadEnvFile_def fileDefines_def Let_def if_True)
next
  case False
  then show ?thesis by (simp add: loadEnvFile_def fileDefines_def Let_def)
qed

lemma map_of_prefixed_fold:
  "map_of (fold (\<lambda>(key, v) acc. if P key then AList.update key v acc else acc) xs a)
   = map_of a ++ map_of (fold (\<lambda>(key, v) acc. if P key then AList.update key v acc else acc) xs [])"
proof (induction xs arbitrary: a)
  case Nil
  then show ?case by simp
next
  case (Cons x xs)
  obtain k v where x: "x = (k, v)" by (cases x)
  let ?F = "fold (\<lambda>(key, v) acc. if P key then AList.update key v acc else acc) xs"
  show ?case
  proof (cases "P k")
    case True
    have s: "fold (\<lambda>(key, v) acc. if P key then AList.update key v acc else acc) (x # xs) c
             = ?F (AList.update k v c)" for c
      using True by (simp add: x)
    have "map_of (?F (AList.update k v a)) = map_of (AList.update k v a) ++ map_of (?F [])"
      by (rule Cons.IH)
    then have 1: "map_of (?F (AList.update k v a)) = (map_of a)(k \<mapsto> v) ++ map_of (?F [])"
      by (simp only: update_conv')
    have "map_of (?F (AList.update k v [])) = map_of (AList.update k v []) ++ map_of (?F [])"
      by (rule Cons.IH)
    then have 2: "map_of (?F (AList.update k v [])) = [k \<mapsto> v] ++ map_of (?F [])"
      by (simp only: update_conv' map_of.simps)
    show ?thesis unfolding s 1 2 by (rule upd_add_assoc)
  next
    case False
    have s: "fold (\<lambda>(key, v) acc. if P key then AList.update key v acc else acc) (x # xs) c
             = ?F c" for c
      using False by (simp add: x)
    show ?thesis unfolding s by (rule Cons.IH)
  qed
qed

lemma map_of_addProcessEnv: "map_of (addProcessEnv w acc) = map_of acc ++ processDefines w"
  unfolding addProcessEnv_def processDefines_def
  by (rule map_of_prefixed_fold[of "\<lambda>key. startsWith key REACT \<or> startsWith key VITE"])

lemma map_of_loadReactEnv:
  "map_of (loadReactEnv L w r)
   = fileDefines L w r ''.env'' ++ fileDefines L w r (''.env.'' @ envMode w)
     ++ fileDefines L w r ''.env.local'' ++ fileDefines L w r (''.env.'' @ envMode w @ ''.local'')
     ++ processDefines w"
proof -
  have "fold (loadEnvFile L w r) (envFiles w) []
        = loadEnvFile L w r (''.env.'' @ envMode w @ ''.local'')
            (loadEnvFile L w r ''.env.local''
               (loadEnvFile L w r (''.env.'' @ envMode w) (loadEnvFile L w r ''.env'' [])))"
    by (simp only: envFiles_def fold_simps comp_def)
  then show ?thesis
    by (simp only: loadReactEnv_def map_of_addProcessEnv map_of_loadEnvFile map_of.simps empty_map_add)
qed

text \<open>
  Claim C5, as stated, fails: a key that \<open>.env\<close> and \<open>.env.local\<close> both define does not
  always come back with the value of \<open>.env.local\<close>. Here the process environment defines
  the key too, and its value is the one returned.
\<close>

theorem loadReactEnv_env_local_counterexample:
  "fileDefines posix
     (worldOf [(''REACT_APP_API_URL'', ''https://ci.example.com'')]
        [(''/app/.env'', File ''REACT_APP_API_URL=https://api.example.com''),
         (''/app/.env.local'', File ''REACT_APP_API_URL=https://local.api.example.com'')])
     ''/app'' ''.env'' ''REACT_APP_API_URL'' = Some ''https://api.example.com''
   \<and> fileDefines posix
     (worldOf [(''REACT_APP_API_URL'', ''https://ci.example.com'')]
        [(''/app/.env'', File ''REACT_APP_API_URL=https://api.example.com''),
         (''/app/.env.local'', File ''REACT_APP_API_URL=https://local.api.example.com'')])
     ''/app'' ''.env.local'' ''REACT_APP_API_URL'' = Some ''https://local.api.example.com''
   \<and> map_of (loadReactEnv posix
     (worldOf [(''REACT_APP_API_URL'', ''https://ci.example.com'')]
        [(''/app/.env'', File ''REACT_APP_API_URL=https://api.example.com''),
         (''/app/.env.local'', File ''REACT_APP_API_URL=https://local.api.example.com'')])
     ''/app'') ''REACT_APP_API_URL'' = Some ''https://ci.example.com''"
  by code_simp

text \<open>
  Claim C5, amended. The React/VITE load applies the files \<open>.env\<close>, \<open>.env.<mode>\<close>,
  \<open>.env.local\<close>, \<open>.env.<mode>.local\<close> in this order and then the prefixed variables of the
  process environment, each overriding the earlier ones for the keys it defines. So a key
  that \<open>.env.local\<close> defines comes back with the value of \<open>.env.local\<close>, whatever \<open>.env\<close> and
  \<open>.env.<mode>\<close> say, provided that neither \<open>.env.<mode>.local\<close> nor the process environment
  defines it.
\<close>

theorem loadReactEnv_precedence:
  "map_of (loadReactEnv L w r)
   = fileDefines L w r ''.env'' ++ fileDefines L w r (''.env.'' @ envMode w)
     ++ fileDefines L w r ''.env.local'' ++ fileDefines L w r (''.env.'' @ envMode w @ ''.local'')
     ++ processDefines w
   \<and> (fileDefines L w r ''.env.local'' k = Some b
        \<and> fileDefines L w r (''.env.'' @ envMode w @ ''.local'') k = None
        \<and> processDefines w k = None
      \<longrightarrow> map_of (loadReactEnv L w r) k = Some b)"
proof (rule conjI)
  show "map_of (loadReactEnv L w r)
   = fileDefines L w r ''.env'' ++ fileDefines L w r (''.env.'' @ envMode w)
     ++ fileDefines L w r ''.env.local'' ++ fileDefines L w r (''.env.'' @ envMode w @ ''.local'')
     ++ processDefines w"
    by (rule map_of_loadReactEnv)
  show "fileDefines L w r ''.env.local'' k = Some b
        \<and> fileDefines L w r (''.env.'' @ envMode w @ ''.local'') k = None
        \<and> processDefines w k = None
      \<longrightarrow> map_of (loadReactEnv L w r) k = Some b"
    unfolding map_of_loadReactEnv by (simp add: map_add_def)
qed

theorem loadReactEnv_precedence_witness:
  "fileDefines posix
     (worldOf [(''HOME'', ''/home/ci'')]
        [(''/app/.env'', File ''REACT_APP_API_URL=https://api.example.com''),
         (''/app/.env.local'', File ''REACT_APP_API_URL=https://local.api.example.com'')])
     ''/app'' ''.env'' ''REACT_APP_API_URL'' = Some ''https://api.example.com''
   \<and> map_of (loadReactEnv posix
     (worldOf [(''HOME'', ''/home/ci'')]
        [(''/app/.env'', File ''REACT_APP_API_URL=https://api.example.com''),
         (''/app/.env.local'', File ''REACT_APP_API_URL=https://local.api.example.com'')])
     ''/app'') ''REACT_APP_API_URL'' = Some ''https://local.api.example.com''"
proof -
  let ?w = "worldOf [(''HOME'', ''/home/ci'')]
        [(''/app/.env'', File ''REACT_APP_API_URL=https://api.example.com''),
         (''/app/.env.local'', File ''REACT_APP_API_URL=https://local.api.example.com'')]"
  have 1: "fileDefines posix ?w ''/app'' ''.env'' ''REACT_APP_API_URL'' = Some ''https://api.example.com''"
    by code_simp
  have 2: "fileDefines posix ?w ''/app'' ''.env.local'' ''REACT_APP_API_URL''
           = Some ''https://local.api.example.com''"
    by code_simp
  have 3: "fileDefines posix ?w ''/app'' (''.env.'' @ envMode ?w @ ''.local'') ''REACT_APP_API_URL'' = None"
    by code_simp
  have 4: "processDefines ?w ''REACT_APP_API_URL'' = None"
    by code_simp
  have "map_of (loadReactEnv posix ?w ''/app'') ''REACT_APP_API_URL''
        = Some ''https://local.api.example.com''"
    using loadReactEnv_precedence[of posix ?w "''/app''" "''REACT_APP_API_URL''"
            "''https://local.api.example.com''", THEN conjunct2] 2 3 4
    by blast
  with 1 show ?thesis by (rule conjI)
qed




section \<open>Angular environment files\<close>

lemma addProperty_keys:
  "fst ` set (addProperty r acc) =
     (if fst (groups r) \<noteq> [] \<and> isValidEnvironmentValue (propertyValue (groups r))
         \<and> propertyValue (groups r) \<noteq> ''false'' \<and> propertyValue (groups r) \<noteq> ''true''
      then insert (angularEnvKey (fst (groups r))) (fst ` set acc) else fst ` set acc)"
  by (simp add: addProperty_def Let_def dom_update)

lemma fold_addProperty_mono: "fst ` set acc \<subseteq> fst ` set (fold addProperty rs acc)"
proof (induction rs arbitrary: acc)
  case Nil
  then show ?case by simp
next
  case (Cons r rs)
  have "fst ` set acc \<subseteq> fst ` set (addProperty r acc)"
    by (auto simp only: addProperty_keys split: if_splits)
  also have "\<dots> \<subseteq> fst ` set (fold addProperty rs (addProperty r acc))"
    by (rule Cons.IH)
  finally show ?case by simp
qed

lemma fold_addProperty_emits:
  assumes "r \<in> set rs" and "fst (groups r) \<noteq> []"
    and "isValidEnvironmentValue (propertyValue (groups r))"
    and "propertyValue (groups r) \<noteq> ''false''" and "propertyValue (groups r) \<noteq> ''true''"
  shows "angularEnvKey (fst (groups r)) \<in> fst ` set (fold addProperty rs acc)"
  using assms(1)
proof (induction rs arbitrary: acc)
  case Nil
  then show ?case by simp
next
  case (Cons x rs)
  show ?case
  proof (cases "r = x")
    case True
    have "angularEnvKey (fst (groups r)) \<in> fst ` set (addProperty r acc)"
      using assms(2-5) by (simp only: addProperty_keys) simp
    then show ?thesis
      using True fold_addProperty_mono[of "addProperty r acc" rs] by auto
  next
    case False
    then have "r \<in> set rs" using Cons.prems by simp
    then show ?thesis using Cons.IH by simp
  qed
qed

lemma camelCaseToUpperCase_lower:
  assumes "isLowerChar c"
  shows "camelCaseToUpperCase (c # cs)
         = toUpperChar c # concat (map (\<lambda>x. if isUpperChar x then [CHR ''_'', x] else [toUpperChar x]) cs)"
proof -
  have nu: "\<not> isUpperChar c"
    using assms by (auto simp: isLowerChar_def isUpperChar_def Let_def)
  have up: "isUpperChar x \<Longrightarrow> toUpperChar x = x" for x
    by (auto simp: toUpperChar_def isLowerChar_def isUpperChar_def Let_def)
  have us: "toUpperChar CHR ''_'' = CHR ''_''"
    by (simp add: toUpperChar_def isLowerChar_def)
  have m: "map toUpperChar (concat (map (\<lambda>x. if isUpperChar x then [CHR ''_'', x] else [x]) xs))
           = concat (map (\<lambda>x. if isUpperChar x then [CHR ''_'', x] else [toUpperChar x]) xs)" for xs
    by (induction xs) (simp_all add: up us)
  have "of_char (toUpperChar c) = (of_char c :: int) - 32"
    using assms by (simp add: toUpperChar_def isLowerChar_def Let_def of_char_of take_bit_eq_mod)
  moreover have "(of_char CHR ''_'' :: int) = 95" by simp
  ultimately have ne: "toUpperChar c \<noteq> CHR ''_''"
    using assms by (auto simp: isLowerChar_def Let_def)
  show ?thesis
    using nu ne by (simp add: camelCaseToUpperCase_def toUpperCase_def Let_def m)
qed

lemma angularEnvKey_camelCase:
  assumes "isLowerChar c"
  shows "angularEnvKey (c # cs)
         = ''NG_'' @ toUpperChar c
             # concat (map (\<lambda>x. if isUpperChar x then [CHR ''_'', x] else [toUpperChar x]) cs)"
proof -
  have "\<not> isUpperChar c" "\<not> isDigitChar c" "c \<noteq> CHR ''_''"
    using assms by (auto simp: isLowerChar_def isUpperChar_def isDigitChar_def Let_def)
  then have "\<not> isConstantCase (c # cs)" by (simp add: isConstantCase_def)
  then show ?thesis
    using assms by (simp add: angularEnvKey_def ANGULAR_def camelCaseToUpperCase_lower)
qed

subsection \<open>The scan of a written file\<close>

lemma sep_not_word: "isSeparatorChar c \<Longrightarrow> \<not> isWordChar c"
  by (auto simp: isSeparatorChar_def isSpaceChar_def isWordChar_def Let_def)

lemma sep_not_bare: "isSeparatorChar c \<Longrightarrow> \<not> isBareChar c"
  by (auto simp: isSeparatorChar_def isBareChar_def)

lemma propertyRegex_sep: "isSeparatorChar c \<Longrightarrow> propertyRegex (c # t) = None"
  by (simp add: propertyRegex_def sep_not_word)

lemma propertyRegex_Nil: "propertyRegex [] = None"
  by (simp add: propertyRegex_def)

lemma matchAll_PR_skip:
  "list_all isSeparatorChar p \<Longrightarrow> matchAll propertyRegex (p @ t) = matchAll propertyRegex t"
proof (induction p)
  case Nil
  then show ?case by simp
next
  case (Cons c p)
  then have "propertyRegex (c # p @ t) = None" by (simp add: propertyRegex_sep)
  then have "matchAll propertyRegex (c # p @ t) = matchAll propertyRegex (p @ t)"
    by (subst matchAll.simps) simp
  then show ?case using Cons by simp
qed

lemma matchAll_PR_seps:
  "list_all isSeparatorChar p \<Longrightarrow> matchAll propertyRegex p = []"
proof -
  assume "list_all isSeparatorChar p"
  then have "matchAll propertyRegex (p @ []) = matchAll propertyRegex []" by (rule matchAll_PR_skip)
  moreover have "matchAll propertyRegex [] = []"
    by (subst matchAll.simps) (simp add: propertyRegex_Nil)
  ultimately show ?thesis by simp
qed

lemma optionalComma_split:
  "\<exists>p. list_all isSeparatorChar p \<and> t = p @ optionalComma t"
proof -
  let ?a = "takeWhile isSpaceChar t" and ?b = "dropWhile isSpaceChar t"
  have t: "t = ?a @ ?b" by simp
  have a: "list_all isSeparatorChar ?a"
    by (auto simp: list_all_iff isSeparatorChar_def dest: set_takeWhileD)
  show ?thesis
  proof (cases "startsWith ?b '',''")
    case True
    then obtain r where b: "?b = CHR '','' # r" by (cases ?b) (auto simp: startsWith_def)
    then have "optionalComma t = r" by (simp add: optionalComma_def spaces0_def lit_def startsWith_def)
    moreover have "list_all isSeparatorChar (?a @ '','')" using a by (simp add: isSeparatorChar_def)
    moreover have "t = (?a @ '','') @ r" using t b by (metis append.assoc append_Cons append_Nil)
    ultimately show ?thesis by blast
  next
    case False
    then have "optionalComma t = ?b" by (simp add: optionalComma_def spaces0_def lit_def)
    then show ?thesis using a t by metis
  qed
qed

lemma matchAll_PR_optionalComma:
  "matchAll propertyRegex (optionalComma t) = matchAll propertyRegex t"
proof -
  obtain p where "list_all isSeparatorChar p" "t = p @ optionalComma t"
    using optionalComma_split by blast
  then show ?thesis using matchAll_PR_skip[of p "optionalComma t"] by simp
qed

lemma length_optionalComma: "length (optionalComma t) \<le> length t"
proof -
  obtain p where "t = p @ optionalComma t" using optionalComma_split by blast
  then have "length t = length p + length (optionalComma t)" by (metis length_append)
  then show ?thesis by simp
qed


lemma wellWritten_hd: "wellWritten (p # ps) \<Longrightarrow> wellWrittenProperty p"
  by (cases ps) simp_all

lemma propertyRegex_written:
  assumes "key \<noteq> []" "list_all isWordChar key" "list_all isSpaceChar gap" "wellWrittenValue v"
    and "\<forall>b. v = Bare b \<longrightarrow> t = [] \<or> \<not> isBareChar (hd t)"
  shows "\<exists>r. propertyRegex (key @ '':'' @ gap @ writeValue v @ t) = Some r
             \<and> groups r = propertyGroups (Property lead key gap v) \<and> rest r = optionalComma t"
proof -
  define u where "u = gap @ writeValue v @ t"
  define s where "s = key @ CHR '':'' # u"
  have nw: "\<not> isWordChar CHR '':''" by (simp add: isWordChar_def)
  have tw: "takeWhile isWordChar s = key"
    unfolding s_def using assms(2) nw by (simp add: takeWhile_append2 list_all_iff)
  have dw: "dropWhile isWordChar s = CHR '':'' # u"
    unfolding s_def using assms(2) nw by (simp add: dropWhile_append2 list_all_iff)
  have l: "lit '':'' (dropWhile isWordChar s) = Some u"
    by (simp add: dw lit_def startsWith_def)
  have "\<exists>r. propertyRegex s = Some r
             \<and> groups r = propertyGroups (Property lead key gap v) \<and> rest r = optionalComma t"
  proof (cases v)
    case (Quoted q x)
    then have q: "isQuoteChar q" and x: "list_all (\<lambda>c. \<not> isQuoteChar c \<and> c \<noteq> CHR ''}'') x"
      using assms(4) by simp_all
    have nsp: "\<not> isSpaceChar q" using q by (auto simp: isQuoteChar_def isSpaceChar_def Let_def)
    have sp: "spaces0 u = q # x @ q # t"
      unfolding u_def using assms(3) nsp Quoted by (simp add: spaces0_def dropWhile_append2 list_all_iff)
    have d: "dropWhile (\<lambda>c. \<not> isQuoteChar c) (x @ q # t) = q # t"
      using x q by (simp add: dropWhile_append2 list_all_iff)
    have tk: "takeWhile (\<lambda>c. \<not> isQuoteChar c) (x @ q # t) = x"
      using x q by (simp add: takeWhile_append2 list_all_iff)
    have qv: "quotedValue (q # x @ q # t) = Some (x, t)"
      using q by (simp add: quotedValue_def d tk)
    show ?thesis
      using assms(1) Quoted by (simp add: propertyRegex_def Let_def tw l sp qv)
  next
    case (Bare b)
    then have b: "b \<noteq> []" "list_all isBareChar b" "\<not> isQuoteChar (hd b)"
      using assms(4) by simp_all
    then obtain c b' where cb: "b = c # b'" by (cases b) auto
    have nsp: "\<not> isSpaceChar c" using b(2) cb by (simp add: isBareChar_def)
    have sp: "spaces0 u = b @ t"
      unfolding u_def using assms(3) nsp Bare cb by (simp add: spaces0_def dropWhile_append2 list_all_iff)
    have qv: "quotedValue (b @ t) = None"
      using b(3) cb by (simp add: quotedValue_def)
    have f: "t = [] \<or> \<not> isBareChar (hd t)" using assms(5) Bare by simp
    have tk: "takeWhile isBareChar (b @ t) = b"
      using b(2) f by (cases t) (simp_all add: takeWhile_append2 list_all_iff)
    have d: "dropWhile isBareChar (b @ t) = t"
      using b(2) f by (cases t) (simp_all add: dropWhile_append2 list_all_iff)
    have bv: "bareValue (b @ t) = Some (b, t)"
      using b(1) by (simp add: bareValue_def tk d)
    show ?thesis
      using assms(1) Bare by (simp add: propertyRegex_def Let_def tw l sp qv bv)
  qed
  then show ?thesis by (simp add: s_def u_def)
qed

lemma matchAll_written_property:
  assumes "wellWrittenProperty p"
    and "\<forall>lead key gap b. p = Property lead key gap (Bare b) \<longrightarrow> t = [] \<or> \<not> isBareChar (hd t)"
  shows "\<exists>r. matchAll propertyRegex (writeProperty p @ t) = r # matchAll propertyRegex t
             \<and> groups r = propertyGroups p"
proof -
  obtain lead key gap v where p: "p = Property lead key gap v" by (cases p)
  define s where "s = key @ '':'' @ gap @ writeValue v @ t"
  have w: "list_all isSeparatorChar lead" "key \<noteq> []" "list_all isWordChar key"
    "list_all isSpaceChar gap" "wellWrittenValue v"
    using assms(1) p by simp_all
  have f: "\<forall>b. v = Bare b \<longrightarrow> t = [] \<or> \<not> isBareChar (hd t)" using assms(2) p by simp
  obtain r where r: "propertyRegex s = Some r" "groups r = propertyGroups (Property lead key gap v)"
    "rest r = optionalComma t"
    unfolding s_def using propertyRegex_written[OF w(2-5) f] by blast
  have "length (rest r) \<le> length t" using r(3) length_optionalComma by simp
  moreover have "length t < length s" using w(2) by (simp add: s_def)
  ultimately have lt: "length (rest r) < length s" by simp
  have "matchAll propertyRegex s = r # matchAll propertyRegex (rest r)"
    by (subst matchAll.simps) (simp add: r(1) lt)
  then have "matchAll propertyRegex s = r # matchAll propertyRegex t"
    by (simp add: r(3) matchAll_PR_optionalComma)
  moreover have "matchAll propertyRegex (writeProperty p @ t) = matchAll propertyRegex s"
    using matchAll_PR_skip[OF w(1), of s] p by (simp add: s_def)
  ultimately show ?thesis using r(2) p by simp
qed

lemma matchAll_written:
  assumes "wellWritten ps" "list_all isSeparatorChar trail"
  shows "map groups (matchAll propertyRegex (concat (map writeProperty ps) @ trail))
         = map propertyGroups ps"
  using assms(1)
proof (induction ps rule: wellWritten.induct)
  case 1
  then show ?case using assms(2) by (simp add: matchAll_PR_seps)
next
  case (2 p)
  have "trail = [] \<or> \<not> isBareChar (hd trail)"
    using assms(2) by (cases trail) (simp_all add: sep_not_bare)
  then obtain r where "matchAll propertyRegex (writeProperty p @ trail) = r # matchAll propertyRegex trail"
    "groups r = propertyGroups p"
    using matchAll_written_property[of p trail] 2 by auto
  then show ?case using assms(2) by (simp add: matchAll_PR_seps)
next
  case (3 p p' ps)
  define t where "t = concat (map writeProperty (p' # ps)) @ trail"
  obtain lead' key' gap' v' where p': "p' = Property lead' key' gap' v'" by (cases p')
  have wp: "wellWrittenProperty p" and sep: "separated p p'" and wr: "wellWritten (p' # ps)"
    using 3(2) by simp_all
  have wp': "wellWrittenProperty p'" using wr by (rule wellWritten_hd)
  have "\<forall>lead key gap b. p = Property lead key gap (Bare b) \<longrightarrow> t = [] \<or> \<not> isBareChar (hd t)"
  proof (intro allI impI)
    fix lead key gap b
    assume "p = Property lead key gap (Bare b)"
    then have "lead' \<noteq> []" using sep p' by simp
    moreover have "list_all isSeparatorChar lead'" using wp' p' by simp
    ultimately have "\<not> isBareChar (hd t)"
      using p' by (cases lead') (simp_all add: sep_not_bare t_def)
    then show "t = [] \<or> \<not> isBareChar (hd t)" by simp
  qed
  then obtain r where "matchAll propertyRegex (writeProperty p @ t) = r # matchAll propertyRegex t"
    "groups r = propertyGroups p"
    using matchAll_written_property[OF wp, of t] by auto
  moreover have "map groups (matchAll propertyRegex t) = map propertyGroups (p' # ps)"
    using 3(1) wr by (simp add: t_def)
  ultimately show ?case by (simp add: t_def)
qed


lemma ENVIRONMENT_EXPORT_written:
  assumes "body \<noteq> []" "CHR ''}'' \<notin> set body"
  shows "\<exists>r. ENVIRONMENT_EXPORT (''export const environment = {'' @ body @ ''}'' @ following) = Some r
             \<and> groups r = body"
proof -
  define u where "u = body @ CHR ''}'' # following"
  have nb: "\<forall>c\<in>set body. c \<noteq> CHR ''}''" using assms(2) by auto
  have tk: "takeWhile (\<lambda>c. c \<noteq> CHR ''}'') u = body"
    unfolding u_def using nb by (simp add: takeWhile_append2)
  have dw: "dropWhile (\<lambda>c. c \<noteq> CHR ''}'') u = CHR ''}'' # following"
    unfolding u_def using nb by (simp add: dropWhile_append2)
  have "\<exists>r. ENVIRONMENT_EXPORT (''export const environment = {'' @ u) = Some r \<and> groups r = body"
    using assms(1)
    by (simp add: ENVIRONMENT_EXPORT_def lit_def startsWith_def spaces1_def spaces0_def
        isSpaceChar_def Let_def tk dw)
  then show ?thesis by (simp add: u_def)
qed

lemma export_at:
  assumes "startsWith (d @ ''export'' @ t) ''export''" "d \<noteq> []"
  shows "startsWith d ''export''"
proof (cases "length d < 6")
  case False
  then show ?thesis using assms(1) by (simp add: startsWith_def)
next
  case True
  moreover have "length d \<noteq> 0" using assms(2) by simp
  ultimately consider "length d = 1" | "length d = 2" | "length d = 3" | "length d = 4"
    | "length d = 5"
    by atomize_elim arith
  then have False
  proof cases
    case 1
    then obtain a where "d = [a]" by (auto simp: length_Suc_conv)
    then show False using assms(1) by (simp add: startsWith_def)
  next
    case 2
    then obtain a b where "d = [a, b]" by (auto simp: length_Suc_conv numeral_eq_Suc)
    then show False using assms(1) by (simp add: startsWith_def)
  next
    case 3
    then obtain a b c where "d = [a, b, c]" by (auto simp: length_Suc_conv numeral_eq_Suc)
    then show False using assms(1) by (simp add: startsWith_def)
  next
    case 4
    then obtain a b c e where "d = [a, b, c, e]" by (auto simp: length_Suc_conv numeral_eq_Suc)
    then show False using assms(1) by (simp add: startsWith_def)
  next
    case 5
    then obtain a b c e f where "d = [a, b, c, e, f]"
      by (auto simp: length_Suc_conv numeral_eq_Suc)
    then show False using assms(1) by (simp add: startsWith_def)
  qed
  then show ?thesis ..
qed

lemma occursIn_drop: "i \<le> length s \<Longrightarrow> startsWith (drop i s) p \<Longrightarrow> occursIn p s"
  unfolding occursIn_def list_ex_iff by (rule bexI[of _ i]) auto

lemma ENVIRONMENT_EXPORT_before:
  assumes "\<not> occursIn ''export'' preceding" "i < length preceding"
  shows "ENVIRONMENT_EXPORT (drop i preceding @ ''export'' @ t) = None"
proof -
  have "\<not> startsWith (drop i preceding) ''export''"
    using assms occursIn_drop[of i preceding "''export''"] by auto
  moreover have "drop i preceding \<noteq> []" using assms(2) by simp
  ultimately have "\<not> startsWith (drop i preceding @ ''export'' @ t) ''export''"
    using export_at by blast
  then show ?thesis by (simp add: ENVIRONMENT_EXPORT_def lit_def)
qed

lemma execFirst_skip:
  assumes "\<And>i. i < length p \<Longrightarrow> m (drop i p @ t) = None"
  shows "execFirst m (p @ t) = map_option (\<lambda>(a, r). (p @ a, r)) (execFirst m t)"
  using assms
proof (induction p)
  case Nil
  then show ?case by (simp add: option.map_ident split_def)
next
  case (Cons c p)
  have "m (c # p @ t) = None" using Cons.prems[of 0] by simp
  moreover have "execFirst m (p @ t) = map_option (\<lambda>(a, r). (p @ a, r)) (execFirst m t)"
  proof (rule Cons.IH)
    fix i assume "i < length p"
    then show "m (drop i p @ t) = None" using Cons.prems[of "Suc i"] by simp
  qed
  ultimately show ?case by (simp add: option.map_comp comp_def split_def)
qed

lemma execFirst_head: "m s = Some r \<Longrightarrow> execFirst m s = Some ([], r)"
  by (cases s) simp_all

lemma not_brace_written:
  assumes "wellWrittenProperty p"
  shows "CHR ''}'' \<notin> set (writeProperty p)"
proof -
  obtain lead key gap v where p: "p = Property lead key gap v" by (cases p)
  have n: "\<not> isSeparatorChar CHR ''}''" "\<not> isWordChar CHR ''}''" "\<not> isSpaceChar CHR ''}''"
    "\<not> isQuoteChar CHR ''}''" "\<not> isBareChar CHR ''}''"
    by (simp_all add: isSeparatorChar_def isSpaceChar_def isWordChar_def isQuoteChar_def
        isBareChar_def)
  have "CHR ''}'' \<notin> set (writeValue v)"
    using assms p n by (cases v) (auto simp: list_all_iff)
  then show ?thesis
    using assms p n by (auto simp: list_all_iff)
qed

lemma wellWritten_all: "wellWritten ps \<Longrightarrow> p \<in> set ps \<Longrightarrow> wellWrittenProperty p"
  by (induction ps rule: wellWritten.induct) auto

lemma parseAngularEnvContent_written:
  assumes "wellWritten ps" "ps \<noteq> []" "list_all isSeparatorChar trail"
    "\<not> occursIn ''export'' preceding"
  shows "\<exists>rs. map groups rs = map propertyGroups ps
              \<and> parseAngularEnvContent (writeEnvironment preceding ps trail following)
                = fold addProperty rs []"
proof -
  define body where "body = concat (map writeProperty ps) @ trail"
  obtain p ps' where ps: "ps = p # ps'" using assms(2) by (cases ps) auto
  have "wellWrittenProperty p" using assms(1) ps by (simp add: wellWritten_hd)
  then have "writeProperty p \<noteq> []" by (cases p) simp
  then have ne: "body \<noteq> []" by (simp add: body_def ps)
  have nb: "CHR ''}'' \<notin> set body"
    using assms(1,3) not_brace_written wellWritten_all
    by (auto simp: body_def list_all_iff isSeparatorChar_def isSpaceChar_def)
  obtain r where r: "ENVIRONMENT_EXPORT (''export const environment = {'' @ body @ ''}'' @ following) = Some r"
    "groups r = body"
    using ENVIRONMENT_EXPORT_written[OF ne nb] by blast
  have "execFirst ENVIRONMENT_EXPORT
          (preceding @ ''export const environment = {'' @ body @ ''}'' @ following)
        = Some (preceding, r)"
  proof -
    have "execFirst ENVIRONMENT_EXPORT
            (preceding @ ''export const environment = {'' @ body @ ''}'' @ following)
          = map_option (\<lambda>(a, r). (preceding @ a, r))
              (execFirst ENVIRONMENT_EXPORT (''export const environment = {'' @ body @ ''}'' @ following))"
    proof (rule execFirst_skip)
      fix i assume "i < length preceding"
      then have "ENVIRONMENT_EXPORT
                  (drop i preceding @ ''export'' @ '' const environment = {'' @ body @ ''}'' @ following)
                 = None"
        using assms(4) by (rule ENVIRONMENT_EXPORT_before[rotated])
      then show "ENVIRONMENT_EXPORT
                  (drop i preceding @ ''export const environment = {'' @ body @ ''}'' @ following) = None"
        by simp
    qed
    then show ?thesis using execFirst_head[of ENVIRONMENT_EXPORT _ r, OF r(1)] by simp
  qed
  then have "parseAngularEnvContent (writeEnvironment preceding ps trail following)
             = fold addProperty (matchAll propertyRegex body) []"
    by (simp add: parseAngularEnvContent_def writeEnvironment_def body_def r(2)[unfolded body_def])
  moreover have "map groups (matchAll propertyRegex body) = map propertyGroups ps"
    unfolding body_def using assms(1,3) by (rule matchAll_written)
  ultimately show ?thesis by blast
qed


lemma fold_addProperty_entries:
  assumes "(k, x) \<in> set (fold addProperty rs acc)"
  shows "(k, x) \<in> set acc
         \<or> (\<exists>r\<in>set rs. k = angularEnvKey (fst (groups r)) \<and> x = propertyValue (groups r)
               \<and> isValidEnvironmentValue x \<and> x \<noteq> ''false'' \<and> x \<noteq> ''true'')"
  using assms
proof (induction rs arbitrary: acc)
  case Nil
  then show ?case by simp
next
  case (Cons r rs)
  then have "(k, x) \<in> set (addProperty r acc)
         \<or> (\<exists>r\<in>set rs. k = angularEnvKey (fst (groups r)) \<and> x = propertyValue (groups r)
               \<and> isValidEnvironmentValue x \<and> x \<noteq> ''false'' \<and> x \<noteq> ''true'')"
    by simp
  moreover have "(k, x) \<in> set (addProperty r acc) \<Longrightarrow>
      (k, x) \<in> set acc
      \<or> (k = angularEnvKey (fst (groups r)) \<and> x = propertyValue (groups r)
          \<and> isValidEnvironmentValue x \<and> x \<noteq> ''false'' \<and> x \<noteq> ''true'')"
    using set_update_subset[of "angularEnvKey (fst (groups r))" "propertyValue (groups r)" acc]
    by (auto simp: addProperty_def Let_def split: if_splits)
  ultimately show ?case by auto
qed

lemma propertyGroups_key: "fst (propertyGroups p) = propertyKey p"
  by (cases p rule: propertyGroups.cases) simp_all

lemma propertyGroups_text: "propertyValue (propertyGroups p) = propertyText p"
  by (cases p rule: propertyGroups.cases) (simp_all add: propertyValue_def)

text \<open>
  Claim C7, as stated, fails: a camelCase property of the recognized export whose value
  is a string does not always give an entry with the translated key. In the first file
  the value of \<open>apiUrl\<close> is the empty string, which is not a valid environment value, and
  no entry is emitted. In the second file a space stands between the name and the colon:
  the scan, which looks for word characters directly followed by a colon, misses the
  property and finds \<open>https:\<close> inside its value instead.
\<close>

theorem parseAngularEnvFile_no_entry_counterexample:
  "map_option (\<lambda>found. map groups (matchAll propertyRegex (groups (snd found))))
     (execFirst ENVIRONMENT_EXPORT ''export const environment = { apiUrl: \"\" };'')
   = Some [(''apiUrl'', Some [], None)]
   \<and> parseAngularEnvFile
       (worldOf [] [(''/app/src/environments/environment.ts'',
                     File ''export const environment = { apiUrl: \"\" };'')])
       ''/app/src/environments/environment.ts''
     = []
   \<and> parseAngularEnvFile
       (worldOf [] [(''/app/src/environments/environment.ts'',
                     File ''export const environment = { apiUrl : \"https://app1.com\" };'')])
       ''/app/src/environments/environment.ts''
     = [(''NG_HTTPS'', ''//app1.com\"'')]"
  by code_simp

text \<open>
  Claim C7, amended. Take an Angular environment file made of a text in which the word
  \<open>export\<close> does not occur, the declaration \<open>export const environment = {\<close>, one or more
  properties written as described above, separators, the closing brace and any text.
  Every property of the file whose name starts with a lower-case letter and whose value
  is a quoted string that is a valid environment value (not empty, not blank, not
  \<open>'undefined'\<close>, not \<open>'null'\<close>, not a quote artifact) other than \<open>'true'\<close> and \<open>'false'\<close> gives
  an entry whose key is \<open>NG_\<close> followed by the name in upper case with an underscore
  before each letter that was upper case. Every entry of the result has the translated
  name of a property of the file as its key and the value of that property as its value,
  a valid value other than \<open>true\<close> and \<open>false\<close>: a property whose value is \<open>true\<close> or \<open>false\<close>
  gives no entry, so a key that only such properties translate to is not in the result.
\<close>

theorem parseAngularEnvFile_camelCase_entry:
  assumes "files w envPath = Some (File (writeEnvironment preceding props trail following))"
    and "wellWritten props" "props \<noteq> []" "list_all isSeparatorChar trail"
    and "\<not> occursIn ''export'' preceding"
  shows "(Property lead (c # cs) gap (Quoted q v) \<in> set props \<and> isLowerChar c
            \<and> isValidEnvironmentValue v \<and> v \<noteq> ''true'' \<and> v \<noteq> ''false''
          \<longrightarrow> (''NG_'' @ toUpperChar c
                  # concat (map (\<lambda>x. if isUpperChar x then [CHR ''_'', x] else [toUpperChar x]) cs))
                \<in> fst ` set (parseAngularEnvFile w envPath))
         \<and> ((k, x) \<in> set (parseAngularEnvFile w envPath)
          \<longrightarrow> x \<noteq> ''true'' \<and> x \<noteq> ''false'' \<and> isValidEnvironmentValue x
              \<and> (\<exists>p\<in>set props. k = angularEnvKey (propertyKey p) \<and> x = propertyText p))
         \<and> ((\<forall>p\<in>set props. angularEnvKey (propertyKey p) = k
                \<longrightarrow> propertyText p = ''true'' \<or> propertyText p = ''false'')
          \<longrightarrow> k \<notin> fst ` set (parseAngularEnvFile w envPath))"
proof -
  let ?result = "parseAngularEnvFile w envPath"
  have content: "?result = parseAngularEnvContent (writeEnvironment preceding props trail following)"
    using assms(1) by (simp add: parseAngularEnvFile_def existsSync_def readFileSync_def)
  obtain rs where g: "map groups rs = map propertyGroups props"
    and f: "?result = fold addProperty rs []"
    using parseAngularEnvContent_written[OF assms(2-5)] content by metis
  have entries: "y \<noteq> ''true'' \<and> y \<noteq> ''false'' \<and> isValidEnvironmentValue y
              \<and> (\<exists>p\<in>set props. j = angularEnvKey (propertyKey p) \<and> y = propertyText p)"
    if "(j, y) \<in> set ?result" for j y
  proof -
    from that obtain r where r: "r \<in> set rs" "j = angularEnvKey (fst (groups r))"
      "y = propertyValue (groups r)" "isValidEnvironmentValue y" "y \<noteq> ''false''" "y \<noteq> ''true''"
      using fold_addProperty_entries[of j y rs "[]"] f by auto
    have "groups r \<in> set (map propertyGroups props)" using r(1) g by (metis image_eqI set_map)
    then obtain p where "p \<in> set props" "groups r = propertyGroups p" by auto
    then show ?thesis using r by (auto simp: propertyGroups_key propertyGroups_text)
  qed
  have 1: "(''NG_'' @ toUpperChar c
                  # concat (map (\<lambda>x. if isUpperChar x then [CHR ''_'', x] else [toUpperChar x]) cs))
                \<in> fst ` set ?result"
    if a: "Property lead (c # cs) gap (Quoted q v) \<in> set props \<and> isLowerChar c
            \<and> isValidEnvironmentValue v \<and> v \<noteq> ''true'' \<and> v \<noteq> ''false''"
  proof -
    have "propertyGroups (Property lead (c # cs) gap (Quoted q v)) \<in> propertyGroups ` set props"
      using a by (intro imageI) simp
    then have "propertyGroups (Property lead (c # cs) gap (Quoted q v)) \<in> set (map groups rs)"
      by (simp only: g set_map)
    then obtain r where r: "r \<in> set rs" "groups r = (c # cs, Some v, None)" by auto
    have "angularEnvKey (fst (groups r)) \<in> fst ` set (fold addProperty rs [])"
      using r a by (intro fold_addProperty_emits) (simp_all add: propertyValue_def)
    then show ?thesis using a r(2) f by (simp add: angularEnvKey_camelCase)
  qed
  have 3: "k \<notin> fst ` set ?result"
    if b: "\<forall>p\<in>set props. angularEnvKey (propertyKey p) = k
                \<longrightarrow> propertyText p = ''true'' \<or> propertyText p = ''false''"
  proof
    assume "k \<in> fst ` set ?result"
    then obtain y where "(k, y) \<in> set ?result" by auto
    then show False using entries[of k y] b by auto
  qed
  show ?thesis using 1 entries[of k x] 3 by blast
qed

theorem parseAngularEnvFile_camelCase_entry_witness:
  "files (worldOf [] [(''/app/src/environments/environment.ts'',
       File ''// the development settings\<newline>export const environment = {\<newline>  production: false,\<newline>  apiUrl: \"https://app1.com\"\<newline>};\<newline>'')])
     ''/app/src/environments/environment.ts''
   = Some (File (writeEnvironment ''// the development settings\<newline>''
       [Property ''\<newline>  '' ''production'' '' '' (Bare ''false''),
        Property '',\<newline>  '' ''apiUrl'' '' '' (Quoted CHR 0x22 ''https://app1.com'')]
       ''\<newline>'' '';\<newline>''))
   \<and> ''NG_API_URL'' \<in> fst ` set (parseAngularEnvFile
        (worldOf [] [(''/app/src/environments/environment.ts'',
           File ''// the development settings\<newline>export const environment = {\<newline>  production: false,\<newline>  apiUrl: \"https://app1.com\"\<newline>};\<newline>'')])
        ''/app/src/environments/environment.ts'')
   \<and> ''NG_PRODUCTION'' \<notin> fst ` set (parseAngularEnvFile
        (worldOf [] [(''/app/src/environments/environment.ts'',
           File ''// the development settings\<newline>export const environment = {\<newline>  production: false,\<newline>  apiUrl: \"https://app1.com\"\<newline>};\<newline>'')])
        ''/app/src/environments/environment.ts'')"
proof -
  let ?props = "[Property ''\<newline>  '' ''production'' '' '' (Bare ''false''),
      Property '',\<newline>  '' ''apiUrl'' '' '' (Quoted CHR 0x22 ''https://app1.com'')]"
  let ?pre = "''// the development settings\<newline>''"
  let ?content = "''// the development settings\<newline>export const environment = {\<newline>  production: false,\<newline>  apiUrl: \"https://app1.com\"\<newline>};\<newline>''"
  let ?w = "worldOf [] [(''/app/src/environments/environment.ts'', File ?content)]"
  let ?path = "''/app/src/environments/environment.ts''"
  have w: "writeEnvironment ?pre ?props ''\<newline>'' '';\<newline>'' = ?content" by code_simp
  have h0: "files ?w ?path = Some (File (writeEnvironment ?pre ?props ''\<newline>'' '';\<newline>''))"
    by (simp only: w) (simp add: worldOf_def)
  have h1: "wellWritten ?props" by code_simp
  have h2: "?props \<noteq> []" by simp
  have h3: "list_all isSeparatorChar ''\<newline>''" by code_simp
  have h4: "\<not> occursIn ''export'' ?pre" by code_simp
  have valid: "isValidEnvironmentValue ''https://app1.com''" by code_simp
  have low: "isLowerChar CHR ''a''" by code_simp
  have key: "''NG_'' @ toUpperChar CHR ''a''
               # concat (map (\<lambda>x. if isUpperChar x then [CHR ''_'', x] else [toUpperChar x]) ''piUrl'')
             = ''NG_API_URL''"
    by code_simp
  have k1: "angularEnvKey ''production'' = ''NG_PRODUCTION''" by code_simp
  have k2: "angularEnvKey ''apiUrl'' = ''NG_API_URL''" by code_simp
  note t = parseAngularEnvFile_camelCase_entry[OF h0 h1 h2 h3 h4,
      of "'',\<newline>  ''" "CHR ''a''" "''piUrl''" "'' ''" "CHR 0x22" "''https://app1.com''"
         "''NG_PRODUCTION''" "[]"]
  have p1: "Property '',\<newline>  '' (CHR ''a'' # ''piUrl'') '' '' (Quoted CHR 0x22 ''https://app1.com'')
              \<in> set ?props
            \<and> isLowerChar CHR ''a'' \<and> isValidEnvironmentValue ''https://app1.com''
            \<and> ''https://app1.com'' \<noteq> ''true'' \<and> ''https://app1.com'' \<noteq> ''false''"
    using valid low by simp
  have "(''NG_'' @ toUpperChar CHR ''a''
               # concat (map (\<lambda>x. if isUpperChar x then [CHR ''_'', x] else [toUpperChar x]) ''piUrl''))
        \<in> fst ` set (parseAngularEnvFile ?w ?path)"
    using p1 by (rule t[THEN conjunct1, THEN mp])
  then have a: "''NG_API_URL'' \<in> fst ` set (parseAngularEnvFile ?w ?path)"
    by (simp only: key)
  have p3: "\<forall>p\<in>set ?props. angularEnvKey (propertyKey p) = ''NG_PRODUCTION''
              \<longrightarrow> propertyText p = ''true'' \<or> propertyText p = ''false''"
    by (simp add: k1 k2)
  have b: "''NG_PRODUCTION'' \<notin> fst ` set (parseAngularEnvFile ?w ?path)"
    using p3 by (rule t[THEN conjunct2, THEN conjunct2, THEN mp])
  show ?thesis using h0 a b by blast
qed

text \<open>
  Claim C8, as stated, fails: the text that \<open>loadConfig\<close> parses is the content of the file
  after its placeholders have been resolved. A file whose content is not valid JSON is
  used, and not treated as absent, when the resolved text is valid JSON: below the
  content \<open>{"useNonce": {{CSP_NONCE}}}\<close> becomes \<open>{"useNonce": true}\<close>.
\<close>

theorem loadConfig_invalid_json_counterexample:
  "json_config (posix\<lparr>json_config := nonceFlagParser\<rparr>) ''{\"useNonce\": {{CSP_NONCE}}}'' = None
   \<and> loadConfig (posix\<lparr>json_config := nonceFlagParser\<rparr>)
        (worldOf [] [(''/app/csp.json'', File ''{\"useNonce\": {{CSP_NONCE}}}'')])
        injectorBaseConfigs (Some ''/app/csp.json'') (Some [(''CSP_NONCE'', ''true'')])
      = ([], DEFAULT_CONFIG\<lparr>useNonce := Some True\<rparr>)
   \<and> defaultsFor injectorBaseConfigs [(''CSP_NONCE'', ''true'')] = DEFAULT_CONFIG
   \<and> useNonce DEFAULT_CONFIG = Some False"
  by code_simp

text \<open>
  Claim C8, amended. For every configuration file whose content, after the resolution of
  its placeholders with the supplied variables, is not valid JSON, \<open>loadConfig\<close> does not
  throw and returns what it returns when no file is used: the enhanced defaults, or else
  the built-in default of the mode. It logs the warning \<open>Invalid config file\<close>, except for a
  file that is empty, which is skipped without a warning.
\<close>

theorem loadConfig_invalid_json_falls_through:
  assumes "files w p = Some (File content)" and "p \<noteq> []"
    and "json_config L (resolveTemplateVariables content V) = None"
  shows "loadConfig L w B (Some p) (Some V)
         = (if content = [] then [] else [''Warning: Invalid config file '' @ p @ '', using defaults''],
            defaultsFor B V)"
proof -
  have r: "readConfigFile L w (Some p) = ([], Some (content, p))"
    using assms(1,2)
    by (simp add: readConfigFile_def tryReadSpecifiedConfig_def existsSync_def readFileSync_def)
  show ?thesis
    using assms(2,3) by (simp add: loadConfig_def loadConfigFromFile_def r safeJsonParse_def)
qed

theorem loadConfig_invalid_json_falls_through_witness:
  "loadConfig posix (worldOf [] [(''/app/csp.json'', File ''{ directives: '')])
     injectorBaseConfigs (Some ''/app/csp.json'') (Some [(''NODE_ENV'', ''production'')])
   = ([''Warning: Invalid config file /app/csp.json, using defaults''], PRODUCTION_CONFIG)"
proof -
  have d: "defaultsFor injectorBaseConfigs [(''NODE_ENV'', ''production'')] = PRODUCTION_CONFIG"
    by (simp add: defaultsFor_def createEnhancedDefaultConfig_def getFrameworkEnvironmentVariables_def
        startsWith_def getDefaultConfigForEnvironment_def injectorBaseConfigs_def)
  show ?thesis
    using loadConfig_invalid_json_falls_through
            [of "worldOf [] [(''/app/csp.json'', File ''{ directives: '')]" "''/app/csp.json''"
                "''{ directives: ''" posix "[(''NODE_ENV'', ''production'')]" injectorBaseConfigs]
    by (simp add: d worldOf_def posix_def)
qed

section \<open>The values of the loaded environment variables\<close>

lemma filterValid_fold:
  "\<forall>(k, v)\<in>set acc. isValidEnvironmentValue v \<Longrightarrow>
   \<forall>(k, v)\<in>set (fold (\<lambda>(key, v) filtered.
        if isValidEnvironmentValue v then AList.update key v filtered else filtered) xs acc).
     isValidEnvironmentValue v"
proof (induction xs arbitrary: acc)
  case Nil
  then show ?case by simp
next
  case (Cons x xs)
  obtain k v where x: "x = (k, v)" by (cases x)
  have "\<forall>(k, v)\<in>set (if isValidEnvironmentValue v then AList.update k v acc else acc).
          isValidEnvironmentValue v"
    using Cons.prems set_update_subset[of k v acc] by auto
  then show ?case using Cons.IH x by simp
qed

lemma filterValid_valid:
  "(k, v) \<in> set (filterValidEnvironmentVariables xs) \<Longrightarrow> isValidEnvironmentValue v"
  using filterValid_fold[of "[]" xs] by (auto simp: filterValidEnvironmentVariables_def)

lemma objAssign_subset: "set (objAssign acc xs) \<subseteq> set acc \<union> set xs"
proof (induction xs arbitrary: acc)
  case Nil
  then show ?case by (simp add: objAssign_def)
next
  case (Cons x xs)
  obtain k v where x: "x = (k, v)" by (cases x)
  have "set (objAssign (AList.update k v acc) xs) \<subseteq> set (AList.update k v acc) \<union> set xs"
    by (rule Cons.IH)
  then show ?case using set_update_subset[of k v acc] x by (auto simp: objAssign_def)
qed

lemma injector_fold:
  "set (fold (\<lambda>(key, v) acc.
          if v \<noteq> [] \<and> v \<noteq> ''undefined'' \<and> v \<noteq> ''null'' then AList.update key v acc else acc)
        xs acc) \<subseteq> set acc \<union> set xs"
proof (induction xs arbitrary: acc)
  case Nil
  then show ?case by simp
next
  case (Cons x xs)
  obtain k v where x: "x = (k, v)" by (cases x)
  let ?acc' = "if v \<noteq> [] \<and> v \<noteq> ''undefined'' \<and> v \<noteq> ''null'' then AList.update k v acc else acc"
  have "set ?acc' \<subseteq> insert (k, v) (set acc)" using set_update_subset[of k v acc] by auto
  moreover have "set (fold (\<lambda>(key, v) acc.
          if v \<noteq> [] \<and> v \<noteq> ''undefined'' \<and> v \<noteq> ''null'' then AList.update key v acc else acc)
        xs ?acc') \<subseteq> set ?acc' \<union> set xs"
    by (rule Cons.IH)
  ultimately show ?case using x by auto
qed

text \<open>
  Claim C9, as stated, fails for \<open>CSPInjector.loadEnvironmentVariables\<close>: it starts from a
  copy of the whole process environment, which it does not filter. A process variable
  with an empty value is returned as it is.
\<close>

theorem CSPInjector_loadEnvironmentVariables_empty_value_counterexample:
  "CSPInjector_loadEnvironmentVariables posix
     (worldOf [(''EMPTY'', []), (''HOME'', ''/home/ci'')] []) ''/app''
   = Inr [(''EMPTY'', []), (''HOME'', ''/home/ci'')]"
  by code_simp

lemma loadEnvironmentVariables_returns:
  assumes "loadAngularWorkspace L w projectRoot = None"
  shows "\<exists>loaded. loadEnvironmentVariables L w projectRoot target = Inr loaded"
proof -
  have "\<exists>vars. loadAngularEnv L w projectRoot target = Inr vars"
    using assms by (simp add: loadAngularEnv_def Let_def)
  then show ?thesis by (auto simp: loadEnvironmentVariables_def)
qed

text \<open>
  Claim C9, amended. Every entry of a map that \<open>loadEnvironmentVariables\<close> of the
  environment module returns has a value that is not empty, not blank, not \<open>'undefined'\<close>,
  not \<open>'null'\<close> and not a quote artifact. Every entry of a map that
  \<open>CSPInjector.loadEnvironmentVariables\<close> returns has such a value or is an entry of the
  process environment, which is copied without a filter. Both return a map whenever the
  project root has no \<open>angular.json\<close> that holds a workspace.
\<close>

theorem loadEnvironmentVariables_values_valid:
  "(loadEnvironmentVariables L w projectRoot target = Inr loaded \<and> (k, v) \<in> set loaded \<longrightarrow>
      v \<noteq> [] \<and> trim v \<noteq> [] \<and> v \<noteq> ''undefined'' \<and> v \<noteq> ''null'' \<and> \<not> quoteArtifact v)
   \<and> (CSPInjector_loadEnvironmentVariables L w projectRoot = Inr merged \<and> (k, v) \<in> set merged \<longrightarrow>
      (v \<noteq> [] \<and> trim v \<noteq> [] \<and> v \<noteq> ''undefined'' \<and> v \<noteq> ''null'' \<and> \<not> quoteArtifact v)
      \<or> (k, v) \<in> set (penv w))
   \<and> (loadAngularWorkspace L w projectRoot = None \<longrightarrow>
      (\<exists>vars. loadEnvironmentVariables L w projectRoot target = Inr vars)
      \<and> (\<exists>vars. CSPInjector_loadEnvironmentVariables L w projectRoot = Inr vars))"
proof (intro conjI; rule impI)
  assume "loadAngularWorkspace L w projectRoot = None"
  then show "(\<exists>vars. loadEnvironmentVariables L w projectRoot target = Inr vars)
      \<and> (\<exists>vars. CSPInjector_loadEnvironmentVariables L w projectRoot = Inr vars)"
    using loadEnvironmentVariables_returns[of L w projectRoot target]
      loadEnvironmentVariables_returns[of L w projectRoot None]
    by (auto simp: CSPInjector_loadEnvironmentVariables_def)
next
  assume "loadEnvironmentVariables L w projectRoot target = Inr loaded \<and> (k, v) \<in> set loaded"
  then obtain raw where "(k, v) \<in> set (filterValidEnvironmentVariables raw)"
    unfolding loadEnvironmentVariables_def by (auto simp: map_sum_def split: sum.splits)
  then have "isValidEnvironmentValue v" by (rule filterValid_valid)
  then show "v \<noteq> [] \<and> trim v \<noteq> [] \<and> v \<noteq> ''undefined'' \<and> v \<noteq> ''null'' \<and> \<not> quoteArtifact v"
    by (simp add: isValidEnvironmentValue_def)
next
  assume a: "CSPInjector_loadEnvironmentVariables L w projectRoot = Inr merged \<and> (k, v) \<in> set merged"
  then obtain frameworkEnvVars where
    f: "loadEnvironmentVariables L w projectRoot None = Inr frameworkEnvVars" and
    m: "merged = fold (\<lambda>(key, v) acc.
                  if v \<noteq> [] \<and> v \<noteq> ''undefined'' \<and> v \<noteq> ''null'' then AList.update key v acc
                  else acc)
            frameworkEnvVars
            (objAssign [] (filter (\<lambda>(key, v). key \<noteq> ''__proto__'') (penv w)))"
    unfolding CSPInjector_loadEnvironmentVariables_def by (auto simp: map_sum_def split: sum.splits)
  from a m have "(k, v) \<in> set (objAssign [] (filter (\<lambda>(key, v). key \<noteq> ''__proto__'') (penv w)))
                 \<or> (k, v) \<in> set frameworkEnvVars"
    using injector_fold[of frameworkEnvVars
            "objAssign [] (filter (\<lambda>(key, v). key \<noteq> ''__proto__'') (penv w))"] by auto
  then show "(v \<noteq> [] \<and> trim v \<noteq> [] \<and> v \<noteq> ''undefined'' \<and> v \<noteq> ''null'' \<and> \<not> quoteArtifact v)
      \<or> (k, v) \<in> set (penv w)"
  proof
    assume "(k, v) \<in> set (objAssign [] (filter (\<lambda>(key, v). key \<noteq> ''__proto__'') (penv w)))"
    then show ?thesis
      using objAssign_subset[of "[]" "filter (\<lambda>(key, v). key \<noteq> ''__proto__'') (penv w)"] by auto
  next
    assume "(k, v) \<in> set frameworkEnvVars"
    with f obtain raw where "(k, v) \<in> set (filterValidEnvironmentVariables raw)"
      unfolding loadEnvironmentVariables_def by (auto simp: map_sum_def split: sum.splits)
    then have "isValidEnvironmentValue v" by (rule filterValid_valid)
    then show ?thesis by (simp add: isValidEnvironmentValue_def)
  qed
qed

theorem loadEnvironmentVariables_values_valid_witness:
  "loadEnvironmentVariables posix
              (worldOf [(''REACT_APP_EMPTY'', []), (''HOME'', ''/home/ci'')]
                 [(''/app/.env'', File ''REACT_APP_API_URL=https://api.example.com'')])
              ''/app'' None
       = Inr [(''REACT_APP_API_URL'', ''https://api.example.com'')]
   \<and> ''https://api.example.com'' \<noteq> [] \<and> \<not> quoteArtifact ''https://api.example.com''"
proof -
  have e: "loadEnvironmentVariables posix
              (worldOf [(''REACT_APP_EMPTY'', []), (''HOME'', ''/home/ci'')]
                 [(''/app/.env'', File ''REACT_APP_API_URL=https://api.example.com'')])
              ''/app'' None
       = Inr [(''REACT_APP_API_URL'', ''https://api.example.com'')]"
    by code_simp
  show ?thesis
    using loadEnvironmentVariables_values_valid
            [of posix
                "worldOf [(''REACT_APP_EMPTY'', []), (''HOME'', ''/home/ci'')]
                   [(''/app/.env'', File ''REACT_APP_API_URL=https://api.example.com'')]"
                "''/app''" None "[(''REACT_APP_API_URL'', ''https://api.example.com'')]"
                "''REACT_APP_API_URL''" "''https://api.example.com''"]
    by (simp add: e)
qed

section \<open>The fallback to the Angular prefix\<close>

text \<open>
  For a name that no plain object inherits, the environment module's resolver replaces
  the placeholder by the value of the name when the variable map has one, otherwise by
  the value of the name with the Angular prefix when the map has that one, and leaves it
  as it stands when the map has neither.
\<close>

lemma environment_resolveTemplateVariables_own_keys:
  assumes "name \<noteq> []" "\<forall>c\<in>set name. isWordChar c" "map_of OBJECT_PROTOTYPE name = None"
  shows "environment_resolveTemplateVariables (pre @ placeholder name @ post) V
         = environment_resolveTemplateVariables pre V
           @ (case map_of V name of
                Some v \<Rightarrow> v
              | None \<Rightarrow> (case map_of V (''NG_'' @ name) of Some v \<Rightarrow> v | None \<Rightarrow> placeholder name))
           @ environment_resolveTemplateVariables post V"
proof -
  let ?f = "\<lambda>r. if groups r = [] then whole r
             else (case getProperty V (groups r) of
                     Some v \<Rightarrow> v
                   | None \<Rightarrow> (case getProperty V (''NG_'' @ groups r) of
                                Some v \<Rightarrow> v
                              | None \<Rightarrow> whole r))"
  have f: "?f (r\<lparr>rest := x\<rparr>) = ?f r" for r :: "string rmatch" and x
    by (simp split: option.splits)
  have "replaceGlobal TEMPLATE_VARIABLE ?f (pre @ placeholder name @ post)
         = replaceGlobal TEMPLATE_VARIABLE ?f pre
           @ ?f \<lparr>whole = placeholder name, groups = name, rest = []\<rparr>
           @ replaceGlobal TEMPLATE_VARIABLE ?f post"
    using f assms(1,2) by (rule replaceGlobal_TV_placeholder)
  then show ?thesis
    using assms(1)
    by (simp add: environment_resolve_eq getProperty_own[OF assms(3)] getProperty_NG
        cong: option.case_cong)
qed

text \<open>
  Claim C10: in the environment module's \<open>resolveTemplateVariables\<close>, a placeholder
  \<open>{{NAME}}\<close> whose \<open>NAME\<close> is not a key of the variable map is replaced by the value of
  the key \<open>NG_NAME\<close> when the map has it, and is left unchanged only when the map has
  neither key. The code does not do this for every \<open>NAME\<close>: the read \<open>envVars[varName]\<close>
  also finds the members that a plain object inherits from \<open>Object.prototype\<close>. With the
  empty variable map, which has neither \<open>toString\<close> nor \<open>NG_toString\<close>, the placeholder
  \<open>{{toString}}\<close> is not left unchanged but replaced by the text of the inherited function;
  and \<open>{{constructor}}\<close> is not replaced by the value of \<open>NG_constructor\<close> when the map has
  only that key. For a name that is not inherited, such as \<open>API_URL\<close>, the code does what
  the claim says.
\<close>

theorem environment_resolveTemplateVariables_inherited_member:
  "environment_resolveTemplateVariables ''{{toString}}'' []
     = ''function toString() { [native code] }''
   \<and> environment_resolveTemplateVariables ''{{constructor}}'' [(''NG_constructor'', ''x'')]
     = ''function Object() { [native code] }''
   \<and> environment_resolveTemplateVariables ''{{API_URL}}'' [(''NG_API_URL'', ''x'')] = ''x''
   \<and> environment_resolveTemplateVariables ''{{API_URL}}'' [] = ''{{API_URL}}''"
  by code_simp

end
